theory Spec2Isabelle
  imports Complex_Main
begin

section \<open>The store\<close>

text \<open>
  HexMem keeps all of its state in one PostgreSQL database and reaches it through
  parameterised SQL. The model is a record of tables, each a list of rows; a query becomes
  a \<open>filter\<close>, an \<open>ORDER BY ... LIMIT\<close> a stable sort followed by \<open>take\<close>, and an
  \<open>UPDATE\<close> a \<open>map\<close>. Conventions:
  \<^item> a UUID is a natural number and \<open>gen_random_uuid()\<close> draws the next value of the
    counter \<open>next_uuid\<close>; an id that a request leaves out (or sends empty) is \<open>None\<close>;
  \<^item> a timestamp is an integer number of milliseconds; \<open>NOW()\<close> and \<open>Date.now()\<close> are
    the parameter \<open>now\<close> of the handler;
  \<^item> a JavaScript number is a rational; a \<open>REAL\<close> column holds the rational that
    \<open>float4_in\<close> makes of the number written to it;
  \<^item> the memory tables share one row type that carries the columns the queries of
    \<open>dedup.ts\<close>, \<open>decay.ts\<close>, \<open>recall.ts\<close>, \<open>memory.ts\<close> and \<open>sessions.ts\<close> read or
    write; payload columns that no modelled query reads (subject, tags, priority, ...) are
    left out together with their CHECK constraints, and foreign keys are taken as satisfied;
  \<^item> the trigram similarity of \<open>pg_trgm\<close>, the cosine distance of \<open>pgvector\<close>, the
    embedding provider and the LLM extractor are parameters, collected in \<open>env\<close>; the
    input functions of the column types \<open>uuid\<close>, \<open>real\<close> and \<open>jsonb\<close> are parameters,
    collected in \<open>pg_input\<close>.
\<close>

type_synonym uuid = nat
type_synonym timestamp = int
type_synonym vec = "rat list"

datatype decay_status = Active | Cooling | Archived

datatype json = JNull | JBool bool | JNum rat | JStr string
  | JArr "json list" | JObj "(string \<times> json) list"

record agent =
  a_id :: uuid
  a_slug :: string
  core_memory :: json

record session =
  s_id :: uuid
  s_agent_id :: uuid

record mem_row =
  row_id :: uuid
  agent_id :: uuid
  session_id :: "uuid option"
  role :: string
  content :: string
  title :: string
  decision :: string
  description :: "string option"
  embedding :: "vec option"
  created_at :: timestamp
  updated_at :: timestamp
  occurred_at :: timestamp
  decay_status :: decay_status
  access_count :: int
  last_accessed_at :: "timestamp option"

record edge =
  edge_id :: uuid
  edge_agent_id :: uuid
  source_type :: string
  source_id :: uuid
  target_type :: string
  target_id :: uuid
  relation :: string
  weight :: rat
  metadata :: json

record decay_policy =
  policy_agent_id :: "uuid option"
  memory_type :: string
  ttl_days :: "int option"
  access_boost :: bool
  min_accesses :: int

record db =
  agents :: "agent list"
  sessions :: "session list"
  session_messages :: "mem_row list"
  facts :: "mem_row list"
  decisions :: "mem_row list"
  tasks :: "mem_row list"
  events :: "mem_row list"
  memory_edges :: "edge list"
  decay_policies :: "decay_policy list"
  next_uuid :: uuid

text \<open>
  The collaborators. \<open>provider = None\<close> is \<open>getEmbeddingProvider()\<close> returning null, and
  an \<open>embed\<close> that returns \<open>None\<close> is one that throws. \<open>trgm_similarity = None\<close> is a
  store in which the \<open>similarity(col, $1)\<close> query raises (the case the \<open>catch\<close> blocks of
  \<open>checkDuplicate\<close> and of the recall route are written for).
\<close>

record extracted_fact =
  xf_content :: string

record extracted_decision =
  xd_title :: string
  xd_decision :: string

record extracted_task =
  xt_title :: string
  xt_description :: "string option"

record extracted_event =
  xe_title :: string
  xe_description :: "string option"

record extraction_result =
  x_facts :: "extracted_fact list"
  x_decisions :: "extracted_decision list"
  x_tasks :: "extracted_task list"
  x_events :: "extracted_event list"

record env =
  provider :: "(string \<Rightarrow> vec option) option"
  trgm_similarity :: "(string \<Rightarrow> string \<Rightarrow> rat) option"
  cosine_distance :: "vec \<Rightarrow> vec \<Rightarrow> rat"
  extractFromMessage :: "string \<times> string \<Rightarrow> (string \<times> string) list \<Rightarrow> extraction_result"

text \<open>
  What the store reads from the text of a parameter, \<open>None\<close> where it raises:
  \<open>uuid_in\<close> for a \<open>uuid\<close> column (error 22P02 on a text that is no UUID),
  \<open>float4_in\<close> for the number a \<open>REAL\<close> column, which keeps single precision, gives
  back for a number written to it (an error when the number is out of range), and
  \<open>jsonb_in\<close> for the document a \<open>jsonb\<close> column parses from a text (an error when the
  text is no JSON).
\<close>

record pg_input =
  uuid_in :: "string \<Rightarrow> uuid option"
  float4_in :: "rat \<Rightarrow> rat option"
  jsonb_in :: "string \<Rightarrow> json option"

text \<open>
  The replies of the routes. \<open>ServerError\<close> is the 500 that Fastify sends when a
  handler throws.
\<close>

datatype 'a reply = Ok 'a | Created 'a | BadRequest string | NotFound string
  | Conflict string uuid rat | ServerError string

text \<open>The body of a 200 or 201 reply.\<close>

fun reply_body :: "'a reply \<Rightarrow> 'a option" where
  "reply_body (Ok x) = Some x"
| "reply_body (Created x) = Some x"
| "reply_body r = None"

text \<open>The HTTP status of a reply.\<close>

fun status_code :: "'a reply \<Rightarrow> nat" where
  "status_code (Ok x) = 200"
| "status_code (Created x) = 201"
| "status_code (BadRequest m) = 400"
| "status_code (NotFound m) = 404"
| "status_code (Conflict m i s) = 409"
| "status_code (ServerError m) = 500"

text \<open>Dynamic table and column names, as the SQL templates interpolate them.\<close>

definition table_rows :: "db \<Rightarrow> string \<Rightarrow> mem_row list" where
  "table_rows d t =
     (if t = ''facts'' then facts d
      else if t = ''decisions'' then decisions d
      else if t = ''tasks'' then tasks d
      else if t = ''events'' then events d
      else if t = ''session_messages'' then session_messages d
      else [])"

definition set_table_rows :: "string \<Rightarrow> mem_row list \<Rightarrow> db \<Rightarrow> db" where
  "set_table_rows t rs d =
     (if t = ''facts'' then d\<lparr>facts := rs\<rparr>
      else if t = ''decisions'' then d\<lparr>decisions := rs\<rparr>
      else if t = ''tasks'' then d\<lparr>tasks := rs\<rparr>
      else if t = ''events'' then d\<lparr>events := rs\<rparr>
      else if t = ''session_messages'' then d\<lparr>session_messages := rs\<rparr>
      else d)"

definition text_column :: "string \<Rightarrow> mem_row \<Rightarrow> string" where
  "text_column c r = (if c = ''title'' then title r else content r)"

definition time_column :: "string \<Rightarrow> mem_row \<Rightarrow> timestamp" where
  "time_column c r =
     (if c = ''occurred_at'' then occurred_at r
      else if c = ''updated_at'' then updated_at r
      else created_at r)"

text \<open>
  \<open>update_updated_at()\<close> of migration 002: tables with the \<open>BEFORE UPDATE\<close> trigger
  (migration 004: facts and tasks among the memory tables) get \<open>updated_at = NOW()\<close> on
  every updated row.
\<close>

definition update_trigger :: "string \<Rightarrow> timestamp \<Rightarrow> mem_row \<Rightarrow> mem_row" where
  "update_trigger t now r =
     (if t = ''facts'' \<or> t = ''tasks'' then r\<lparr>updated_at := now\<rparr> else r)"

text \<open>\<open>ORDER BY key DESC\<close>; rows with equal keys keep their table order.\<close>

definition order_by_desc :: "('a \<Rightarrow> rat) \<Rightarrow> 'a list \<Rightarrow> 'a list" where
  "order_by_desc key xs = sort_key (\<lambda>x. - key x) xs"

definition order_by_asc :: "('a \<Rightarrow> rat) \<Rightarrow> 'a list \<Rightarrow> 'a list" where
  "order_by_asc key xs = sort_key key xs"

section \<open>Core memory (routes/agents.ts)\<close>

text \<open>
  The store's \<open>jsonb\<close> operators used by \<open>PATCH /api/v1/agents/:id/core-memory\<close>:
  \<open>jsonb_strip_nulls\<close> deletes every object field whose value is null, recursively, and
  \<open>||\<close> unites two objects key by key with the right operand winning; any other pair of
  operands is concatenated as arrays. An object is an association list.
\<close>

fun jsonb_strip_nulls :: "json \<Rightarrow> json" where
  "jsonb_strip_nulls (JObj kvs) =
     JObj (map (\<lambda>(k, v). (k, jsonb_strip_nulls v)) (filter (\<lambda>(k, v). v \<noteq> JNull) kvs))"
| "jsonb_strip_nulls (JArr xs) = JArr (map jsonb_strip_nulls xs)"
| "jsonb_strip_nulls v = v"

fun as_array :: "json \<Rightarrow> json list" where
  "as_array (JArr xs) = xs"
| "as_array v = [v]"

fun jsonb_concat :: "json \<Rightarrow> json \<Rightarrow> json" where
  "jsonb_concat (JObj a) (JObj b) =
     JObj (filter (\<lambda>(k, v). k \<notin> fst ` set b) a @ b)"
| "jsonb_concat a b = JArr (as_array a @ as_array b)"

fun null_free :: "json \<Rightarrow> bool" where
  "null_free (JObj kvs) = (\<forall>(k, v) \<in> set kvs. v \<noteq> JNull \<and> null_free v)"
| "null_free (JArr xs) = (\<forall>v \<in> set xs. null_free v)"
| "null_free v = True"

text \<open>
  \<open>const isUuid = /^[0-9a-f]{8}-/i.test(id)\<close>: eight hexadecimal digits of either case
  and a hyphen, at the start of the path parameter.
\<close>

definition hex_digit :: "char \<Rightarrow> bool" where
  "hex_digit c = (c \<in> set ''0123456789abcdefABCDEF'')"

definition isUuid :: "string \<Rightarrow> bool" where
  "isUuid s =
     (case drop 8 s of
        [] \<Rightarrow> False
      | c # cs \<Rightarrow> list_all hex_digit (take 8 s) \<and> c = CHR ''-'')"

text \<open>
  \<open>WHERE ${whereField} = $2\<close> with \<open>whereField = isUuid ? 'id' : 'slug'\<close> and the path
  parameter as \<open>$2\<close>: the agent a row must match, or \<open>None\<close> when the comparison with
  the \<open>uuid\<close> column raises because the parameter is no UUID.
\<close>

datatype agent_ref = ById uuid | BySlug string

fun agent_matches :: "agent_ref \<Rightarrow> agent \<Rightarrow> bool" where
  "agent_matches (ById i) a = (a_id a = i)"
| "agent_matches (BySlug s) a = (a_slug a = s)"

definition where_clause :: "pg_input \<Rightarrow> string \<Rightarrow> agent_ref option" where
  "where_clause pg path =
     (if isUuid path then map_option ById (uuid_in pg path) else Some (BySlug path))"

text \<open>\<open>!patch || typeof patch !== 'object'\<close>: only objects and arrays pass.\<close>

fun is_js_object :: "json \<Rightarrow> bool" where
  "is_js_object (JObj kvs) = True"
| "is_js_object (JArr xs) = True"
| "is_js_object v = False"

definition merge_patch :: "json \<Rightarrow> agent \<Rightarrow> agent" where
  "merge_patch patch a =
     a\<lparr>core_memory := jsonb_strip_nulls (jsonb_concat (core_memory a) patch)\<rparr>"

text \<open>
  \<open>PATCH /api/v1/agents/:id/core-memory\<close>. The route does not catch what the UPDATE
  raises, so a path parameter that matches \<open>isUuid\<close> and is no UUID answers 500.
\<close>

definition patch_core_memory ::
  "pg_input \<Rightarrow> db \<Rightarrow> string \<Rightarrow> json \<Rightarrow> json reply \<times> db" where
  "patch_core_memory pg d path patch =
     (if \<not> is_js_object patch then (BadRequest ''Request body must be a JSON object'', d)
      else (case where_clause pg path of
              None \<Rightarrow> (ServerError ''invalid input syntax for type uuid'', d)
            | Some ref \<Rightarrow>
               (case map (merge_patch patch) (filter (agent_matches ref) (agents d)) of
                  [] \<Rightarrow> (NotFound ''Agent not found'', d)
                | r # rs \<Rightarrow>
                    (Ok (core_memory r),
                     d\<lparr>agents := map (\<lambda>a. if agent_matches ref a then merge_patch patch a else a)
                                     (agents d)\<rparr>))))"

section \<open>Duplicate detection (services/dedup.ts)\<close>

datatype match_type = Syntactic | Semantic

record DuplicateMatch =
  dm_id :: uuid
  dm_similarity :: rat
  dm_type :: match_type

definition CONTENT_COLUMN :: "string \<Rightarrow> string option" where
  "CONTENT_COLUMN =
     map_of [(''facts'', ''content''), (''decisions'', ''title''), (''tasks'', ''title''),
             (''events'', ''title''), (''session_messages'', ''content'')]"

definition TRIGRAM_THRESHOLD :: rat where
  "TRIGRAM_THRESHOLD = 6 / 10"

definition SEMANTIC_THRESHOLD :: rat where
  "SEMANTIC_THRESHOLD = 92 / 100"

text \<open>
  Stage 1, the trigram query: the rows it returns (at most one) with their similarity, or
  \<open>None\<close> when the query raises.
\<close>

definition trigram_query ::
  "env \<Rightarrow> db \<Rightarrow> string \<Rightarrow> string \<Rightarrow> uuid \<Rightarrow> string \<Rightarrow> (mem_row \<times> rat) list option" where
  "trigram_query e d table contentCol agentId text =
     (case trgm_similarity e of
        None \<Rightarrow> None
      | Some sim \<Rightarrow>
          Some (take 1 (order_by_desc snd
            (map (\<lambda>r. (r, sim (text_column contentCol r) text))
              (filter (\<lambda>r. agent_id r = agentId \<and> decay_status r = Active
                            \<and> sim (text_column contentCol r) text > TRIGRAM_THRESHOLD)
                 (table_rows d table))))))"

text \<open>Stage 2, the vector query over rows with an embedding.\<close>

definition semantic_query ::
  "env \<Rightarrow> db \<Rightarrow> string \<Rightarrow> uuid \<Rightarrow> vec \<Rightarrow> (mem_row \<times> rat) list" where
  "semantic_query e d table agentId v =
     take 1 (order_by_desc snd
       (List.map_filter
          (\<lambda>r. case embedding r of
                 None \<Rightarrow> None
               | Some x \<Rightarrow>
                   if agent_id r = agentId \<and> decay_status r = Active
                      \<and> 1 - cosine_distance e x v > SEMANTIC_THRESHOLD
                   then Some (r, 1 - cosine_distance e x v) else None)
          (table_rows d table)))"

definition checkDuplicate ::
  "env \<Rightarrow> db \<Rightarrow> string \<Rightarrow> uuid \<Rightarrow> string \<Rightarrow> DuplicateMatch option" where
  "checkDuplicate e d table agentId text =
     (case CONTENT_COLUMN table of
        None \<Rightarrow> None
      | Some contentCol \<Rightarrow>
         (case (case trigram_query e d table contentCol agentId text of
                  None \<Rightarrow> [] | Some rows \<Rightarrow> rows) of
            (r, s) # rest \<Rightarrow>
              Some \<lparr>dm_id = row_id r, dm_similarity = s, dm_type = Syntactic\<rparr>
          | [] \<Rightarrow>
             (case provider e of
                None \<Rightarrow> None
              | Some embed_fn \<Rightarrow>
                 (case embed_fn text of
                    None \<Rightarrow> None
                  | Some v \<Rightarrow>
                     (case semantic_query e d table agentId v of
                        (r, s) # rest \<Rightarrow>
                          Some \<lparr>dm_id = row_id r, dm_similarity = s, dm_type = Semantic\<rparr>
                      | [] \<Rightarrow> None)))))"

section \<open>Direct writes (routes/memory.ts)\<close>

definition embedText :: "env \<Rightarrow> string \<Rightarrow> vec option" where
  "embedText e text = (case provider e of None \<Rightarrow> None | Some embed_fn \<Rightarrow> embed_fn text)"

text \<open>A row with the column defaults of migrations 004 and 008.\<close>

definition new_row :: "uuid \<Rightarrow> uuid \<Rightarrow> timestamp \<Rightarrow> mem_row" where
  "new_row i a now =
     \<lparr>row_id = i, agent_id = a, session_id = None, role = [], content = [], title = [],
      decision = [], description = None, embedding = None, created_at = now,
      updated_at = now, occurred_at = now, decay_status = Active, access_count = 0,
      last_accessed_at = None\<rparr>"

definition insert_row :: "string \<Rightarrow> (uuid \<Rightarrow> mem_row) \<Rightarrow> db \<Rightarrow> mem_row \<times> db" where
  "insert_row t mk d =
     (let r = mk (next_uuid d)
      in (r, set_table_rows t (table_rows d t @ [r]) (d\<lparr>next_uuid := Suc (next_uuid d)\<rparr>)))"

text \<open>\<open>x || null\<close> on an optional string: the empty string counts as absent.\<close>

fun or_null :: "string option \<Rightarrow> string option" where
  "or_null None = None"
| "or_null (Some s) = (if s = [] then None else Some s)"

text \<open>\<open>title + (description ? `: ${description}` : '')\<close>\<close>

definition with_description :: "string \<Rightarrow> string option \<Rightarrow> string" where
  "with_description t descr =
     (case or_null descr of None \<Rightarrow> t | Some x \<Rightarrow> t @ '': '' @ x)"

definition post_fact ::
  "env \<Rightarrow> db \<Rightarrow> timestamp \<Rightarrow> uuid option \<Rightarrow> string \<Rightarrow> mem_row reply \<times> db" where
  "post_fact e d now agent text =
     (case agent of
        None \<Rightarrow> (BadRequest ''agent_id and content are required'', d)
      | Some a \<Rightarrow>
          if text = [] then (BadRequest ''agent_id and content are required'', d)
          else (case checkDuplicate e d ''facts'' a text of
                  Some dup \<Rightarrow>
                    (Conflict ''Duplicate fact detected'' (dm_id dup) (dm_similarity dup), d)
                | None \<Rightarrow>
                    (let emb = embedText e text;
                         (r, d') = insert_row ''facts''
                            (\<lambda>i. (new_row i a now)\<lparr>content := text, embedding := emb\<rparr>) d
                     in (Created r, d'))))"

definition post_decision ::
  "env \<Rightarrow> db \<Rightarrow> timestamp \<Rightarrow> uuid option \<Rightarrow> string \<Rightarrow> string \<Rightarrow> uuid option
     \<Rightarrow> mem_row reply \<times> db" where
  "post_decision e d now agent ttl dec sess =
     (case agent of
        None \<Rightarrow> (BadRequest ''agent_id, title, and decision are required'', d)
      | Some a \<Rightarrow>
          if ttl = [] \<or> dec = []
          then (BadRequest ''agent_id, title, and decision are required'', d)
          else (case checkDuplicate e d ''decisions'' a (ttl @ '': '' @ dec) of
                  Some dup \<Rightarrow>
                    (Conflict ''Duplicate decision detected'' (dm_id dup) (dm_similarity dup), d)
                | None \<Rightarrow>
                    (let emb = embedText e (ttl @ '': '' @ dec);
                         (r, d') = insert_row ''decisions''
                            (\<lambda>i. (new_row i a now)\<lparr>title := ttl, decision := dec,
                                     session_id := sess, embedding := emb\<rparr>) d
                     in (Created r, d'))))"

definition post_task ::
  "env \<Rightarrow> db \<Rightarrow> timestamp \<Rightarrow> uuid option \<Rightarrow> string \<Rightarrow> string option
     \<Rightarrow> mem_row reply \<times> db" where
  "post_task e d now agent ttl descr =
     (case agent of
        None \<Rightarrow> (BadRequest ''agent_id and title are required'', d)
      | Some a \<Rightarrow>
          if ttl = [] then (BadRequest ''agent_id and title are required'', d)
          else (case checkDuplicate e d ''tasks'' a ttl of
                  Some dup \<Rightarrow>
                    (Conflict ''Duplicate task detected'' (dm_id dup) (dm_similarity dup), d)
                | None \<Rightarrow>
                    (let emb = embedText e (with_description ttl descr);
                         (r, d') = insert_row ''tasks''
                            (\<lambda>i. (new_row i a now)\<lparr>title := ttl, description := or_null descr,
                                     embedding := emb\<rparr>) d
                     in (Created r, d'))))"

definition post_event ::
  "env \<Rightarrow> db \<Rightarrow> timestamp \<Rightarrow> uuid option \<Rightarrow> string \<Rightarrow> string \<Rightarrow> string option
     \<Rightarrow> timestamp option \<Rightarrow> mem_row reply \<times> db" where
  "post_event e d now agent ttl event_type descr occurred =
     (case agent of
        None \<Rightarrow> (BadRequest ''agent_id, title, and event_type are required'', d)
      | Some a \<Rightarrow>
          if ttl = [] \<or> event_type = []
          then (BadRequest ''agent_id, title, and event_type are required'', d)
          else (let emb = embedText e (with_description ttl descr);
                    (r, d') = insert_row ''events''
                       (\<lambda>i. (new_row i a now)\<lparr>title := ttl, description := or_null descr,
                                occurred_at := (case occurred of None \<Rightarrow> now | Some t \<Rightarrow> t),
                                embedding := emb\<rparr>) d
                in (Created r, d')))"

section \<open>Hybrid recall (routes/recall.ts)\<close>

record recall_signals =
  semantic :: "rat option"
  keyword :: "rat option"
  recency :: "rat option"
  graph_boost :: "rat option"

text \<open>
  \<open>RecallResult\<close>. The entries under \<open>related\<close> are \<open>RecallResult\<close>s whose own
  \<open>related\<close> is never set, so they are the record without that field.
\<close>

record recall_item =
  r_id :: uuid
  r_type :: string
  r_content :: string
  score :: rat
  signals :: recall_signals
  r_metadata :: "(string \<times> string) list"
  r_created_at :: timestamp

record RecallResult = recall_item +
  related :: "recall_item list option"

record recall_table =
  rt_table :: string
  rt_type :: string
  rt_contentCol :: string
  rt_timeCol :: string

definition RECALL_TABLES :: "recall_table list" where
  "RECALL_TABLES =
     [\<lparr>rt_table = ''session_messages'', rt_type = ''session_message'',
       rt_contentCol = ''content'', rt_timeCol = ''created_at''\<rparr>,
      \<lparr>rt_table = ''facts'', rt_type = ''fact'',
       rt_contentCol = ''content'', rt_timeCol = ''created_at''\<rparr>,
      \<lparr>rt_table = ''decisions'', rt_type = ''decision'',
       rt_contentCol = ''title'', rt_timeCol = ''created_at''\<rparr>,
      \<lparr>rt_table = ''tasks'', rt_type = ''task'',
       rt_contentCol = ''title'', rt_timeCol = ''created_at''\<rparr>,
      \<lparr>rt_table = ''events'', rt_type = ''event'',
       rt_contentCol = ''title'', rt_timeCol = ''occurred_at''\<rparr>]"

text \<open>
  The request body. An absent field is \<open>None\<close> and takes the default of the
  destructuring pattern; \<open>query\<close> is a string, empty when absent.
\<close>

record recall_body =
  b_query :: string
  b_agent_id :: "uuid option"
  b_types :: "string list option"
  b_limit :: "nat option"
  b_include_related :: "bool option"
  b_recency_weight :: "rat option"
  b_semantic_weight :: "rat option"
  b_keyword_weight :: "rat option"

record recall_weights =
  w_semantic :: rat
  w_keyword :: rat
  w_recency :: rat

record recall_response =
  results :: "RecallResult list"
  total :: nat
  r_query :: string
  weights :: recall_weights

text \<open>A row as the two SELECTs of the route return it.\<close>

record recall_row =
  h_id :: uuid
  h_content :: string
  h_similarity :: rat
  h_created_at :: timestamp

definition tablesToSearch :: "string list option \<Rightarrow> recall_table list" where
  "tablesToSearch types =
     filter (\<lambda>t. case types of None \<Rightarrow> True | Some ts \<Rightarrow> ts = [] \<or> rt_type t \<in> set ts)
       RECALL_TABLES"

definition semantic_rows ::
  "env \<Rightarrow> db \<Rightarrow> recall_table \<Rightarrow> vec \<Rightarrow> uuid \<Rightarrow> nat \<Rightarrow> recall_row list" where
  "semantic_rows e d t q agentId limit =
     map (\<lambda>(r, dist). \<lparr>h_id = row_id r, h_content = text_column (rt_contentCol t) r,
                         h_similarity = 1 - dist, h_created_at = time_column (rt_timeCol t) r\<rparr>)
       (take limit (order_by_asc snd
          (List.map_filter
             (\<lambda>r. case embedding r of
                    None \<Rightarrow> None
                  | Some x \<Rightarrow>
                      if agent_id r = agentId \<and> decay_status r = Active
                      then Some (r, cosine_distance e x q) else None)
             (table_rows d (rt_table t)))))"

definition keyword_rows ::
  "env \<Rightarrow> db \<Rightarrow> recall_table \<Rightarrow> string \<Rightarrow> uuid \<Rightarrow> nat \<Rightarrow> recall_row list option" where
  "keyword_rows e d t q agentId limit =
     (case trgm_similarity e of
        None \<Rightarrow> None
      | Some sim \<Rightarrow>
          Some (map (\<lambda>(r, s). \<lparr>h_id = row_id r, h_content = text_column (rt_contentCol t) r,
                                h_similarity = s, h_created_at = time_column (rt_timeCol t) r\<rparr>)
            (take limit (order_by_desc snd
               (map (\<lambda>r. (r, sim (text_column (rt_contentCol t) r) q))
                  (filter (\<lambda>r. agent_id r = agentId \<and> decay_status r = Active
                                \<and> sim (text_column (rt_contentCol t) r) q > 1 / 10)
                     (table_rows d (rt_table t))))))))"

text \<open>\<open>allResults.find(r => r.id === row.id)\<close> followed by a write to the entry found.\<close>

fun update_first :: "('a \<Rightarrow> bool) \<Rightarrow> ('a \<Rightarrow> 'a) \<Rightarrow> 'a list \<Rightarrow> 'a list" where
  "update_first P f [] = []"
| "update_first P f (x # xs) = (if P x then f x # xs else x # update_first P f xs)"

definition new_result :: "string \<Rightarrow> recall_row \<Rightarrow> recall_signals \<Rightarrow> RecallResult" where
  "new_result type row s =
     \<lparr>r_id = h_id row, r_type = type, r_content = h_content row, score = 0, signals = s,
      r_metadata = [], r_created_at = h_created_at row, related = None\<rparr>"

definition add_semantic :: "string \<Rightarrow> RecallResult list \<Rightarrow> recall_row \<Rightarrow> RecallResult list" where
  "add_semantic type allResults row =
     (case find (\<lambda>r. r_id r = h_id row) allResults of
        Some existing \<Rightarrow>
          update_first (\<lambda>r. r_id r = h_id row)
            (\<lambda>r. r\<lparr>signals := (signals r)\<lparr>semantic := Some (h_similarity row)\<rparr>\<rparr>) allResults
      | None \<Rightarrow>
          allResults @ [new_result type row
            \<lparr>semantic = Some (h_similarity row), keyword = None, recency = None,
             graph_boost = None\<rparr>])"

definition add_keyword :: "string \<Rightarrow> RecallResult list \<Rightarrow> recall_row \<Rightarrow> RecallResult list" where
  "add_keyword type allResults row =
     (case find (\<lambda>r. r_id r = h_id row) allResults of
        Some existing \<Rightarrow>
          update_first (\<lambda>r. r_id r = h_id row)
            (\<lambda>r. r\<lparr>signals := (signals r)\<lparr>keyword := Some (h_similarity row)\<rparr>\<rparr>) allResults
      | None \<Rightarrow>
          allResults @ [new_result type row
            \<lparr>semantic = None, keyword = Some (h_similarity row), recency = None,
             graph_boost = None\<rparr>])"

text \<open>One iteration of the loop over \<open>tablesToSearch\<close>.\<close>

definition search_table ::
  "env \<Rightarrow> db \<Rightarrow> string \<Rightarrow> vec option \<Rightarrow> uuid \<Rightarrow> nat \<Rightarrow> RecallResult list \<Rightarrow> recall_table
     \<Rightarrow> RecallResult list" where
  "search_table e d q queryEmbedding agentId limit allResults t =
     (let afterSemantic =
            (case queryEmbedding of
               None \<Rightarrow> allResults
             | Some v \<Rightarrow> foldl (add_semantic (rt_type t)) allResults
                           (semantic_rows e d t v agentId limit))
      in case keyword_rows e d t q agentId limit of
           None \<Rightarrow> afterSemantic
         | Some rows \<Rightarrow> foldl (add_keyword (rt_type t)) afterSemantic rows)"

definition maxAge :: rat where
  "maxAge = 90 * 24 * 60 * 60 * 1000"

definition with_recency :: "timestamp \<Rightarrow> RecallResult \<Rightarrow> RecallResult" where
  "with_recency now r =
     r\<lparr>signals := (signals r)
          \<lparr>recency := Some (max 0 (1 - of_int (now - r_created_at r) / maxAge))\<rparr>\<rparr>"

text \<open>\<open>x || 0\<close> on an optional number.\<close>

fun or_zero :: "rat option \<Rightarrow> rat" where
  "or_zero None = 0"
| "or_zero (Some x) = x"

definition with_score :: "rat \<Rightarrow> rat \<Rightarrow> rat \<Rightarrow> RecallResult \<Rightarrow> RecallResult" where
  "with_score semantic_weight keyword_weight recency_weight r =
     r\<lparr>score := or_zero (semantic (signals r)) * semantic_weight
               + or_zero (keyword (signals r)) * keyword_weight
               + or_zero (recency (signals r)) * recency_weight
               + or_zero (graph_boost (signals r)) * (1 / 10)\<rparr>"

definition getRelatedItems :: "db \<Rightarrow> uuid \<Rightarrow> string \<Rightarrow> uuid \<Rightarrow> recall_item list" where
  "getRelatedItems d itemId itemType agentId =
     (let edges =
            map (\<lambda>x. (''outgoing'', target_type x, target_id x, relation x, weight x))
              (filter (\<lambda>x. source_type x = itemType \<and> source_id x = itemId
                            \<and> edge_agent_id x = agentId) (memory_edges d))
            @ map (\<lambda>x. (''incoming'', source_type x, source_id x, relation x, weight x))
              (filter (\<lambda>x. target_type x = itemType \<and> target_id x = itemId
                            \<and> edge_agent_id x = agentId) (memory_edges d))
      in concat (map (\<lambda>(direction, related_type, related_id, rel, w).
           case find (\<lambda>t. rt_type t = related_type) RECALL_TABLES of
             None \<Rightarrow> []
           | Some tableConfig \<Rightarrow>
              (case filter (\<lambda>r. row_id r = related_id) (table_rows d (rt_table tableConfig)) of
                 [] \<Rightarrow> []
               | row # rows \<Rightarrow>
                   [\<lparr>r_id = row_id row, r_type = related_type,
                     r_content = text_column (rt_contentCol tableConfig) row, score = w,
                     signals = \<lparr>semantic = None, keyword = None, recency = None,
                                graph_boost = Some w\<rparr>,
                     r_metadata = [(''relation'', rel), (''direction'', direction)],
                     r_created_at = time_column (rt_timeCol tableConfig) row\<rparr>])) edges))"

definition attach_related :: "db \<Rightarrow> uuid \<Rightarrow> RecallResult list \<Rightarrow> RecallResult list" where
  "attach_related d agentId topResults =
     map (\<lambda>r. r\<lparr>related := Some (getRelatedItems d (r_id r) (r_type r) agentId)\<rparr>)
       (take 5 topResults) @ drop 5 topResults"

definition bump_access :: "timestamp \<Rightarrow> db \<Rightarrow> RecallResult \<Rightarrow> db" where
  "bump_access now d r =
     (case find (\<lambda>t. rt_type t = r_type r) RECALL_TABLES of
        None \<Rightarrow> d
      | Some tableConfig \<Rightarrow>
          set_table_rows (rt_table tableConfig)
            (map (\<lambda>x. if row_id x = r_id r
                       then update_trigger (rt_table tableConfig) now
                              (x\<lparr>access_count := access_count x + 1,
                                 last_accessed_at := Some now\<rparr>)
                       else x)
               (table_rows d (rt_table tableConfig))) d)"

text \<open>Steps 2 to 4 of the route: the candidates, with recency and score, before the cut.\<close>

definition recall_candidates ::
  "env \<Rightarrow> db \<Rightarrow> timestamp \<Rightarrow> recall_body \<Rightarrow> uuid \<Rightarrow> RecallResult list" where
  "recall_candidates e d now b agentId =
     (let limit = (case b_limit b of None \<Rightarrow> 20 | Some l \<Rightarrow> l);
          recency_weight = (case b_recency_weight b of None \<Rightarrow> 1 / 10 | Some w \<Rightarrow> w);
          semantic_weight = (case b_semantic_weight b of None \<Rightarrow> 7 / 10 | Some w \<Rightarrow> w);
          keyword_weight = (case b_keyword_weight b of None \<Rightarrow> 2 / 10 | Some w \<Rightarrow> w);
          queryEmbedding = embedText e (b_query b);
          allResults = foldl (search_table e d (b_query b) queryEmbedding agentId limit) []
                         (tablesToSearch (b_types b))
      in map (with_score semantic_weight keyword_weight recency_weight)
           (map (with_recency now) allResults))"

definition recall :: "env \<Rightarrow> db \<Rightarrow> timestamp \<Rightarrow> recall_body \<Rightarrow> recall_response reply \<times> db" where
  "recall e d now b =
     (case b_agent_id b of
        None \<Rightarrow> (BadRequest ''query and agent_id are required'', d)
      | Some agentId \<Rightarrow>
          if b_query b = [] then (BadRequest ''query and agent_id are required'', d)
          else
            (let limit = (case b_limit b of None \<Rightarrow> 20 | Some l \<Rightarrow> l);
                 include_related = (case b_include_related b of None \<Rightarrow> True | Some i \<Rightarrow> i);
                 recency_weight = (case b_recency_weight b of None \<Rightarrow> 1 / 10 | Some w \<Rightarrow> w);
                 semantic_weight = (case b_semantic_weight b of None \<Rightarrow> 7 / 10 | Some w \<Rightarrow> w);
                 keyword_weight = (case b_keyword_weight b of None \<Rightarrow> 2 / 10 | Some w \<Rightarrow> w);
                 ranked = order_by_desc score (recall_candidates e d now b agentId);
                 topResults = take limit ranked;
                 withRelated = (if include_related \<and> topResults \<noteq> []
                                then attach_related d agentId topResults else topResults)
             in (Ok \<lparr>results = withRelated, total = length withRelated, r_query = b_query b,
                      weights = \<lparr>w_semantic = semantic_weight, w_keyword = keyword_weight,
                                 w_recency = recency_weight\<rparr>\<rparr>,
                 foldl (bump_access now) d withRelated)))"

section \<open>The relationship graph (routes/edges.ts)\<close>

text \<open>The CHECK constraints of migration 005 on \<open>memory_edges\<close>.\<close>

definition EDGE_NODE_TYPES :: "string list" where
  "EDGE_NODE_TYPES = [''task'', ''fact'', ''decision'', ''event'', ''session'', ''project'']"

definition EDGE_RELATIONS :: "string list" where
  "EDGE_RELATIONS =
     [''caused_by'', ''decided_in'', ''blocks'', ''relates_to'', ''supersedes'', ''part_of'',
      ''led_to'', ''references'', ''depends_on'', ''derived_from'']"

text \<open>The columns of \<open>UNIQUE(source_type, source_id, target_type, target_id, relation)\<close>.\<close>

definition edge_key :: "edge \<Rightarrow> string \<times> uuid \<times> string \<times> uuid \<times> string" where
  "edge_key x = (source_type x, source_id x, target_type x, target_id x, relation x)"

text \<open>
  The request body. A weight that is absent or null is \<open>None\<close> (\<open>weight ?? 1.0\<close>);
  the metadata is whatever JSON value the request carries, if any.
\<close>

record edge_body =
  eb_agent_id :: "uuid option"
  eb_source_type :: string
  eb_source_id :: "uuid option"
  eb_target_type :: string
  eb_target_id :: "uuid option"
  eb_relation :: string
  eb_weight :: "rat option"
  eb_metadata :: "json option"

text \<open>\<open>metadata || {}\<close>: a falsy value is replaced by the empty object.\<close>

fun js_falsy :: "json \<Rightarrow> bool" where
  "js_falsy JNull = True"
| "js_falsy (JBool b) = (\<not> b)"
| "js_falsy (JNum n) = (n = 0)"
| "js_falsy (JStr s) = (s = [])"
| "js_falsy v = False"

fun or_empty_object :: "json option \<Rightarrow> json" where
  "or_empty_object None = JObj []"
| "or_empty_object (Some v) = (if js_falsy v then JObj [] else v)"

text \<open>
  The query parameters \<open>$7\<close> and \<open>$8\<close> as the columns read them. The driver sends
  every parameter as text: an object through \<open>JSON.stringify\<close>, a number or a boolean
  through \<open>toString\<close>, a string as it is, and an array as an array literal in braces.
  So the \<open>jsonb\<close> column reads an object, a number or a boolean back as sent, parses a
  string as JSON text, reads the empty array (the literal \<open>{}\<close>) as the empty object
  and raises on any other array (a literal \<open>{"a","b"}\<close> is no JSON text). The
  \<open>REAL\<close> column reads \<open>weight ?? 1.0\<close> through \<open>float4_in\<close>; the default 1.0 is
  exact in single precision.
\<close>

fun jsonb_param :: "pg_input \<Rightarrow> json \<Rightarrow> json option" where
  "jsonb_param pg (JStr s) = jsonb_in pg s"
| "jsonb_param pg (JArr xs) = (if xs = [] then Some (JObj []) else None)"
| "jsonb_param pg v = Some v"

definition edge_metadata :: "pg_input \<Rightarrow> edge_body \<Rightarrow> json option" where
  "edge_metadata pg b = jsonb_param pg (or_empty_object (eb_metadata b))"

definition edge_weight :: "pg_input \<Rightarrow> edge_body \<Rightarrow> rat option" where
  "edge_weight pg b = (case eb_weight b of None \<Rightarrow> Some 1 | Some x \<Rightarrow> float4_in pg x)"


text \<open>
  \<open>INSERT ... ON CONFLICT (source_type, source_id, target_type, target_id, relation)
  DO UPDATE SET weight = EXCLUDED.weight, metadata = EXCLUDED.metadata RETURNING *\<close>.
  A parameter that its column cannot read, or a row that violates a CHECK constraint,
  makes the statement raise; the route catches that and answers 400 with the error's
  message.
\<close>

definition post_edge :: "pg_input \<Rightarrow> db \<Rightarrow> edge_body \<Rightarrow> edge reply \<times> db" where
  "post_edge pg d b =
     (case (eb_agent_id b, eb_source_id b, eb_target_id b) of
        (Some a, Some sid, Some tid) \<Rightarrow>
          if eb_source_type b = [] \<or> eb_target_type b = [] \<or> eb_relation b = []
          then (BadRequest ''agent_id, source_type, source_id, target_type, target_id, and relation are required'', d)
          else
           (case (edge_weight pg b, edge_metadata pg b) of
              (Some w, Some m) \<Rightarrow>
                if \<not> (eb_source_type b \<in> set EDGE_NODE_TYPES
                        \<and> eb_target_type b \<in> set EDGE_NODE_TYPES
                        \<and> eb_relation b \<in> set EDGE_RELATIONS)
                then (BadRequest ''new row for relation memory_edges violates check constraint'', d)
                else
                  (let k = (eb_source_type b, sid, eb_target_type b, tid, eb_relation b)
                   in case find (\<lambda>x. edge_key x = k) (memory_edges d) of
                        Some existing \<Rightarrow>
                          (Created (existing\<lparr>weight := w, metadata := m\<rparr>),
                           d\<lparr>memory_edges :=
                                map (\<lambda>x. if edge_key x = k then x\<lparr>weight := w, metadata := m\<rparr> else x)
                                  (memory_edges d)\<rparr>)
                      | None \<Rightarrow>
                          (let row = \<lparr>edge_id = next_uuid d, edge_agent_id = a,
                                      source_type = eb_source_type b, source_id = sid,
                                      target_type = eb_target_type b, target_id = tid,
                                      relation = eb_relation b, weight = w, metadata = m\<rparr>
                           in (Created row,
                               d\<lparr>memory_edges := memory_edges d @ [row],
                                 next_uuid := Suc (next_uuid d)\<rparr>)))
            | _ \<Rightarrow> (BadRequest ''invalid input syntax'', d))
      | _ \<Rightarrow> (BadRequest ''agent_id, source_type, source_id, target_type, target_id, and relation are required'', d))"

section \<open>Ingestion (routes/sessions.ts)\<close>

text \<open>
  \<open>INSERT INTO memory_edges (...) VALUES ($1, type, $2, 'session', $3, relation)
  ON CONFLICT DO NOTHING\<close>, with the column defaults for weight and metadata.
\<close>

definition insert_edge_do_nothing ::
  "db \<Rightarrow> uuid \<Rightarrow> string \<Rightarrow> uuid \<Rightarrow> string \<Rightarrow> uuid \<Rightarrow> string \<Rightarrow> db" where
  "insert_edge_do_nothing d agentId st sid tt tid rel =
     (if list_ex (\<lambda>x. edge_key x = (st, sid, tt, tid, rel)) (memory_edges d) then d
      else d\<lparr>memory_edges := memory_edges d @
                 [\<lparr>edge_id = next_uuid d, edge_agent_id = agentId, source_type = st,
                   source_id = sid, target_type = tt, target_id = tid, relation = rel,
                   weight = 1, metadata = JObj []\<rparr>],
             next_uuid := Suc (next_uuid d)\<rparr>)"

definition has_edge :: "db \<Rightarrow> string \<Rightarrow> uuid \<Rightarrow> string \<Rightarrow> uuid \<Rightarrow> bool" where
  "has_edge d ty i rel sessionId =
     list_ex (\<lambda>x. edge_key x = (ty, i, ''session'', sessionId, rel)) (memory_edges d)"

record StoredItems =
  factIds :: "uuid list"
  decisionIds :: "uuid list"
  taskIds :: "uuid list"
  eventIds :: "uuid list"

text \<open>
  The body shared by the four loops of \<open>storeExtractedItems\<close>: embed (best effort),
  insert the row, push its id, insert the edge to the session.
\<close>

definition store_item ::
  "env \<Rightarrow> string \<Rightarrow> string \<Rightarrow> string \<Rightarrow> uuid \<Rightarrow> uuid \<Rightarrow> string \<Rightarrow> (vec option \<Rightarrow> uuid \<Rightarrow> mem_row)
     \<Rightarrow> uuid list \<times> db \<Rightarrow> uuid list \<times> db" where
  "store_item e table ty rel agentId sessionId text mk acc =
     (let emb = (case provider e of None \<Rightarrow> None | Some embed_fn \<Rightarrow> embed_fn text);
          (r, d1) = insert_row table (mk emb) (snd acc)
      in (fst acc @ [row_id r],
          insert_edge_do_nothing d1 agentId ty (row_id r) ''session'' sessionId rel))"

definition store_fact ::
  "env \<Rightarrow> timestamp \<Rightarrow> uuid \<Rightarrow> uuid \<Rightarrow> uuid list \<times> db \<Rightarrow> extracted_fact \<Rightarrow> uuid list \<times> db" where
  "store_fact e now agentId sessionId acc fct =
     store_item e ''facts'' ''fact'' ''derived_from'' agentId sessionId (xf_content fct)
       (\<lambda>emb i. (new_row i agentId now)\<lparr>content := xf_content fct, embedding := emb\<rparr>) acc"

definition store_decision ::
  "env \<Rightarrow> timestamp \<Rightarrow> uuid \<Rightarrow> uuid \<Rightarrow> uuid list \<times> db \<Rightarrow> extracted_decision \<Rightarrow> uuid list \<times> db" where
  "store_decision e now agentId sessionId acc dec =
     store_item e ''decisions'' ''decision'' ''decided_in'' agentId sessionId
       (xd_title dec @ '': '' @ xd_decision dec)
       (\<lambda>emb i. (new_row i agentId now)\<lparr>title := xd_title dec, decision := xd_decision dec,
                    session_id := Some sessionId, embedding := emb\<rparr>) acc"

definition store_task ::
  "env \<Rightarrow> timestamp \<Rightarrow> uuid \<Rightarrow> uuid \<Rightarrow> uuid list \<times> db \<Rightarrow> extracted_task \<Rightarrow> uuid list \<times> db" where
  "store_task e now agentId sessionId acc task =
     store_item e ''tasks'' ''task'' ''derived_from'' agentId sessionId
       (with_description (xt_title task) (xt_description task))
       (\<lambda>emb i. (new_row i agentId now)\<lparr>title := xt_title task,
                    description := xt_description task, embedding := emb\<rparr>) acc"

definition store_event ::
  "env \<Rightarrow> timestamp \<Rightarrow> uuid \<Rightarrow> uuid \<Rightarrow> uuid list \<times> db \<Rightarrow> extracted_event \<Rightarrow> uuid list \<times> db" where
  "store_event e now agentId sessionId acc evt =
     store_item e ''events'' ''event'' ''derived_from'' agentId sessionId
       (with_description (xe_title evt) (xe_description evt))
       (\<lambda>emb i. (new_row i agentId now)\<lparr>title := xe_title evt,
                    description := xe_description evt, embedding := emb\<rparr>) acc"

definition storeExtractedItems ::
  "env \<Rightarrow> timestamp \<Rightarrow> uuid \<Rightarrow> uuid \<Rightarrow> extraction_result \<Rightarrow> db \<Rightarrow> StoredItems \<times> db" where
  "storeExtractedItems e now agentId sessionId extracted d =
     (let (fs, d1) = foldl (store_fact e now agentId sessionId) ([], d) (x_facts extracted);
          (ds, d2) = foldl (store_decision e now agentId sessionId) ([], d1) (x_decisions extracted);
          (ts, d3) = foldl (store_task e now agentId sessionId) ([], d2) (x_tasks extracted);
          (es, d4) = foldl (store_event e now agentId sessionId) ([], d3) (x_events extracted)
      in (\<lparr>factIds = fs, decisionIds = ds, taskIds = ts, eventIds = es\<rparr>, d4))"

record extracted_counts =
  n_facts :: nat
  n_decisions :: nat
  n_tasks :: nat
  n_events :: nat

record message_reply =
  m_message :: mem_row
  m_extracted :: extracted_counts

text \<open>\<open>POST /api/v1/sessions/:id/messages\<close>.\<close>

definition add_message ::
  "env \<Rightarrow> db \<Rightarrow> timestamp \<Rightarrow> uuid \<Rightarrow> string \<Rightarrow> string \<Rightarrow> message_reply reply \<times> db" where
  "add_message e d now sessionId msg_role msg_content =
     (if msg_role = [] \<or> msg_content = [] then (BadRequest ''role and content are required'', d)
      else case find (\<lambda>s. s_id s = sessionId) (sessions d) of
             None \<Rightarrow> (NotFound ''Session not found'', d)
           | Some s \<Rightarrow>
              (let agentId = s_agent_id s;
                   emb = embedText e msg_content;
                   (message, d1) = insert_row ''session_messages''
                      (\<lambda>i. (new_row i agentId now)\<lparr>session_id := Some sessionId, role := msg_role,
                               content := msg_content, embedding := emb\<rparr>) d;
                   recentMsgs = take 4 (order_by_desc (\<lambda>m. of_int (created_at m))
                      (filter (\<lambda>m. session_id m = Some sessionId \<and> row_id m \<noteq> row_id message)
                         (session_messages d1)));
                   extracted = extractFromMessage e (msg_role, msg_content)
                                 (rev (map (\<lambda>m. (role m, content m)) recentMsgs));
                   (stored, d2) = storeExtractedItems e now agentId sessionId extracted d1
               in (Created \<lparr>m_message = message,
                             m_extracted = \<lparr>n_facts = length (factIds stored),
                                             n_decisions = length (decisionIds stored),
                                             n_tasks = length (taskIds stored),
                                             n_events = length (eventIds stored)\<rparr>\<rparr>,
                   d2)))"

section \<open>Decay (services/decay.ts)\<close>

definition MEMORY_TABLES :: "string list" where
  "MEMORY_TABLES = [''facts'', ''decisions'', ''tasks'', ''events'', ''session_messages'']"

definition TABLE_TO_TYPE :: "string \<Rightarrow> string option" where
  "TABLE_TO_TYPE =
     map_of [(''facts'', ''fact''), (''decisions'', ''decision''), (''tasks'', ''task''),
             (''events'', ''event''), (''session_messages'', ''session_message'')]"

text \<open>The \<open>created\<close> and \<open>updated\<close> column of each table.\<close>

definition TABLE_TIMESTAMPS :: "string \<Rightarrow> (string \<times> string) option" where
  "TABLE_TIMESTAMPS =
     map_of [(''facts'', (''created_at'', ''updated_at'')),
             (''decisions'', (''created_at'', ''created_at'')),
             (''tasks'', (''created_at'', ''updated_at'')),
             (''events'', (''occurred_at'', ''occurred_at'')),
             (''session_messages'', (''created_at'', ''created_at''))]"

record DecayStats =
  transitioned_to_cooling :: nat
  transitioned_to_archived :: nat
  immune_items :: nat

text \<open>
  \<open>WHERE memory_type = $1 AND (agent_id = $2 OR agent_id IS NULL)
  ORDER BY agent_id NULLS LAST LIMIT 1\<close>: the agent's own rows come first, the global rows
  after them. Without an agent (\<open>$2\<close> null) only the global rows qualify.
\<close>

definition resolve_policy :: "db \<Rightarrow> string \<Rightarrow> uuid option \<Rightarrow> decay_policy option" where
  "resolve_policy d memType agentId =
     (case filter (\<lambda>p. memory_type p = memType \<and> policy_agent_id p \<noteq> None
                        \<and> policy_agent_id p = agentId) (decay_policies d)
           @ filter (\<lambda>p. memory_type p = memType \<and> policy_agent_id p = None) (decay_policies d) of
        [] \<Rightarrow> None
      | p # ps \<Rightarrow> Some p)"

definition day_ms :: int where
  "day_ms = 24 * 60 * 60 * 1000"

text \<open>The optional \<open>AND agent_id = $n\<close> of the three statements.\<close>

definition in_scope :: "uuid option \<Rightarrow> mem_row \<Rightarrow> bool" where
  "in_scope agentId r = (case agentId of None \<Rightarrow> True | Some a \<Rightarrow> agent_id r = a)"

text \<open>The WHERE clause of the first UPDATE (active to cooling).\<close>

definition stale :: "timestamp \<Rightarrow> uuid option \<Rightarrow> int \<Rightarrow> int \<Rightarrow> string \<Rightarrow> mem_row \<Rightarrow> bool" where
  "stale now agentId min_acc ttl created r =
     (decay_status r = Active \<and> in_scope agentId r \<and> access_count r < min_acc
      \<and> ((last_accessed_at r = None \<and> time_column created r < now - ttl * day_ms)
          \<or> (case last_accessed_at r of None \<Rightarrow> False | Some t \<Rightarrow> t < now - ttl * day_ms)))"

definition cool_rows ::
  "timestamp \<Rightarrow> uuid option \<Rightarrow> int \<Rightarrow> int \<Rightarrow> string \<Rightarrow> string \<Rightarrow> mem_row list \<Rightarrow> mem_row list" where
  "cool_rows now agentId min_acc ttl table created rows =
     map (\<lambda>r. if stale now agentId min_acc ttl created r
               then update_trigger table now (r\<lparr>decay_status := Cooling\<rparr>) else r) rows"

text \<open>The WHERE clause of the second UPDATE (cooling to archived).\<close>

definition expired :: "timestamp \<Rightarrow> uuid option \<Rightarrow> string \<Rightarrow> mem_row \<Rightarrow> bool" where
  "expired now agentId updated r =
     (decay_status r = Cooling \<and> in_scope agentId r
      \<and> time_column updated r < now - 30 * day_ms)"

definition archive_rows ::
  "timestamp \<Rightarrow> uuid option \<Rightarrow> string \<Rightarrow> string \<Rightarrow> mem_row list \<Rightarrow> mem_row list" where
  "archive_rows now agentId table updated rows =
     map (\<lambda>r. if expired now agentId updated r
               then update_trigger table now (r\<lparr>decay_status := Archived\<rparr>) else r) rows"

text \<open>
  What a sweep makes of one table, given the policy resolved for it: nothing without a
  policy or without a TTL, otherwise the two UPDATEs in turn.
\<close>

definition swept_rows ::
  "timestamp \<Rightarrow> uuid option \<Rightarrow> decay_policy option \<Rightarrow> string \<Rightarrow> mem_row list \<Rightarrow> mem_row list" where
  "swept_rows now agentId policy table rows =
     (case (policy, TABLE_TIMESTAMPS table) of
        (Some p, Some (created, updated)) \<Rightarrow>
          (case ttl_days p of
             None \<Rightarrow> rows
           | Some ttl \<Rightarrow>
               archive_rows now agentId table updated
                 (cool_rows now agentId (min_accesses p) ttl table created rows))
      | _ \<Rightarrow> rows)"

text \<open>One iteration of the loop over \<open>MEMORY_TABLES\<close>.\<close>

definition sweep_table ::
  "timestamp \<Rightarrow> uuid option \<Rightarrow> DecayStats \<times> db \<Rightarrow> string \<Rightarrow> DecayStats \<times> db" where
  "sweep_table now agentId acc table =
     (case (TABLE_TO_TYPE table, TABLE_TIMESTAMPS table) of
        (Some memType, Some (created, updated)) \<Rightarrow>
          (case resolve_policy (snd acc) memType agentId of
             None \<Rightarrow> acc
           | Some policy \<Rightarrow>
              (case ttl_days policy of
                 None \<Rightarrow> acc
               | Some ttl \<Rightarrow>
                  (let rows = table_rows (snd acc) table;
                       toCooling = length (filter (stale now agentId (min_accesses policy) ttl created) rows);
                       rows1 = cool_rows now agentId (min_accesses policy) ttl table created rows;
                       toArchived = length (filter (expired now agentId updated) rows1);
                       rows2 = archive_rows now agentId table updated rows1;
                       immune = length (filter (\<lambda>r. decay_status r = Active \<and> in_scope agentId r
                                                      \<and> access_count r \<ge> min_accesses policy) rows2)
                   in ((fst acc)\<lparr>transitioned_to_cooling := transitioned_to_cooling (fst acc) + toCooling,
                                  transitioned_to_archived := transitioned_to_archived (fst acc) + toArchived,
                                  immune_items := immune_items (fst acc) + immune\<rparr>,
                       set_table_rows table rows2 (snd acc)))))
      | _ \<Rightarrow> acc)"

definition runDecaySweep :: "db \<Rightarrow> timestamp \<Rightarrow> uuid option \<Rightarrow> DecayStats \<times> db" where
  "runDecaySweep d now agentId =
     foldl (sweep_table now agentId)
       (\<lparr>transitioned_to_cooling = 0, transitioned_to_archived = 0, immune_items = 0\<rparr>, d)
       MEMORY_TABLES"

section \<open>Example stores\<close>

text \<open>
  Fixtures for the concrete instances below: a similarity given by a table (equal strings
  have similarity 1, unlisted pairs 0), an environment without embedding provider, and an
  empty database.
\<close>

definition sim_of :: "((string \<times> string) \<times> rat) list \<Rightarrow> string \<Rightarrow> string \<Rightarrow> rat" where
  "sim_of tbl a b = (if a = b then 1 else case map_of tbl (a, b) of Some s \<Rightarrow> s | None \<Rightarrow> 0)"

definition lexical_env :: "(string \<Rightarrow> string \<Rightarrow> rat) \<Rightarrow> env" where
  "lexical_env sim =
     \<lparr>provider = None, trgm_similarity = Some sim, cosine_distance = (\<lambda>a b. 1),
      extractFromMessage = (\<lambda>m c. \<lparr>x_facts = [], x_decisions = [], x_tasks = [], x_events = []\<rparr>)\<rparr>"

text \<open>
  A store that reads one UUID, gives numbers back from a \<open>REAL\<close> column as they
  are except for 0.123456789, which single precision turns into 0.12345679, and parses
  the JSON texts \<open>{}\<close> and \<open>7\<close>.
\<close>

definition example_pg :: pg_input where
  "example_pg =
     \<lparr>uuid_in = (\<lambda>s. if s = ''0000002a-0000-4000-8000-000000000000'' then Some 42 else None),
      float4_in = (\<lambda>x. if x = 123456789 / 1000000000 then Some (12345679 / 100000000)
                         else Some x),
      jsonb_in = (\<lambda>s. if s = ''{}'' then Some (JObj []) else if s = ''7'' then Some (JNum 7)
                        else None)\<rparr>"

definition empty_db :: db where
  "empty_db =
     \<lparr>agents = [], sessions = [], session_messages = [], facts = [], decisions = [],
      tasks = [], events = [], memory_edges = [], decay_policies = [], next_uuid = 100\<rparr>"

text \<open>
  A store for the recall examples: an active fact and an active event of agent 7 that
  resemble the query \<open>fastify\<close>, a cooling fact equal to the query, and an edge from
  the active fact to the cooling one. The clock stands at 45 days.
\<close>

definition recall_db :: db where
  "recall_db = empty_db
     \<lparr>facts := [(new_row 1 7 0)\<lparr>content := ''fastify server''\<rparr>,
                (new_row 2 7 0)\<lparr>content := ''fastify'', decay_status := Cooling\<rparr>],
      events := [(new_row 3 7 0)\<lparr>title := ''fastify release'', occurred_at := 3888000000\<rparr>],
      memory_edges := [\<lparr>edge_id = 9, edge_agent_id = 7, source_type = ''fact'', source_id = 1,
                         target_type = ''fact'', target_id = 2, relation = ''relates_to'',
                         weight = 9 / 10, metadata = JObj []\<rparr>]\<rparr>"

definition recall_env :: env where
  "recall_env = lexical_env (sim_of [((''fastify server'', ''fastify''), 1 / 2),
                                     ((''fastify release'', ''fastify''), 2 / 5)])"

definition recall_req :: recall_body where
  "recall_req = \<lparr>b_query = ''fastify'', b_agent_id = Some 7, b_types = None, b_limit = None,
                  b_include_related = None, b_recency_weight = None, b_semantic_weight = None,
                  b_keyword_weight = None\<rparr>"

text \<open>A store with one edge, and a request for another.\<close>

definition edge_db :: db where
  "edge_db = empty_db\<lparr>memory_edges :=
     [\<lparr>edge_id = 9, edge_agent_id = 7, source_type = ''fact'', source_id = 1,
       target_type = ''fact'', target_id = 2, relation = ''relates_to'',
       weight = 9 / 10, metadata = JObj []\<rparr>]\<rparr>"

definition edge_req :: "rat option \<Rightarrow> json option \<Rightarrow> edge_body" where
  "edge_req w m = \<lparr>eb_agent_id = Some 7, eb_source_type = ''fact'', eb_source_id = Some 1,
                   eb_target_type = ''decision'', eb_target_id = Some 5,
                   eb_relation = ''relates_to'', eb_weight = w, eb_metadata = m\<rparr>"

text \<open>
  A store for the decay examples: the global policy for facts of migration 008 (90 days,
  3 accesses), a policy of agent 7 under which its facts never decay, a fact of agent 7
  that was never read, one that was read five times, and a fact of agent 8.
\<close>

definition decay_db :: db where
  "decay_db = empty_db
     \<lparr>facts := [(new_row 1 7 0),
                (new_row 2 7 0)\<lparr>access_count := 5\<rparr>,
                (new_row 3 8 0)],
      decay_policies :=
        [\<lparr>policy_agent_id = None, memory_type = ''fact'', ttl_days = Some 90,
          access_boost = True, min_accesses = 3\<rparr>,
         \<lparr>policy_agent_id = None, memory_type = ''decision'', ttl_days = None,
          access_boost = True, min_accesses = 0\<rparr>,
         \<lparr>policy_agent_id = Some 7, memory_type = ''fact'', ttl_days = None,
          access_boost = True, min_accesses = 0\<rparr>]\<rparr>"

text \<open>
  A store with one open session of agent 7, and an extractor that finds a fact, a
  decision and a task in every message.
\<close>

definition ingest_env :: env where
  "ingest_env =
     \<lparr>provider = None, trgm_similarity = Some (sim_of []), cosine_distance = (\<lambda>a b. 1),
      extractFromMessage = (\<lambda>m c.
        \<lparr>x_facts = [\<lparr>xf_content = ''the database is PostgreSQL''\<rparr>],
         x_decisions = [\<lparr>xd_title = ''database'', xd_decision = ''use PostgreSQL''\<rparr>],
         x_tasks = [\<lparr>xt_title = ''implement search'', xt_description = None\<rparr>],
         x_events = []\<rparr>)\<rparr>"

definition ingest_db :: db where
  "ingest_db = empty_db\<lparr>sessions := [\<lparr>s_id = 50, s_agent_id = 7\<rparr>]\<rparr>"

section \<open>Properties of the core-memory update\<close>




text \<open>A value without null-valued object fields passes \<open>jsonb_strip_nulls\<close> unchanged.\<close>

lemma strip_null_free: "null_free v \<Longrightarrow> jsonb_strip_nulls v = v"
proof (induction v rule: jsonb_strip_nulls.induct)
  case (1 kvs)
  have f: "filter (\<lambda>(k, v). v \<noteq> JNull) kvs = kvs"
    using "1.prems" by (auto simp: filter_id_conv)
  have "map (\<lambda>(k, v). (k, jsonb_strip_nulls v)) kvs = map (\<lambda>kv. kv) kvs"
    apply (rule map_cong[OF refl])
    using 1 f by auto
  then show ?case using f by simp
next
  case (2 xs)
  then show ?case by (simp add: map_idI)
qed simp_all


text \<open>
  The dispatch on the path parameter. A slug may start with eight hexadecimal digits and
  a hyphen; the route then compares it with the \<open>id\<close> column, the store raises and the
  request answers 500, whatever the agents are.
\<close>

lemma isUuid_slug: "isUuid ''deadbeef-agent''"
  by (simp add: isUuid_def hex_digit_def)

lemma patch_core_memory_no_uuid:
  assumes "is_js_object patch" and "isUuid path" and "uuid_in pg path = None"
  shows "patch_core_memory pg d path patch
           = (ServerError ''invalid input syntax for type uuid'', d)"
  using assms by (simp add: patch_core_memory_def where_clause_def)

lemma where_clause_cases:
  "where_clause pg path = Some ref \<longleftrightarrow>
     (isUuid path \<and> (\<exists>u. uuid_in pg path = Some u \<and> ref = ById u))
     \<or> (\<not> isUuid path \<and> ref = BySlug path)"
  by (auto simp: where_clause_def)

lemma filter_first:
  "find P xs = Some a \<Longrightarrow> \<exists>rs. filter P xs = a # rs"
  by (induction xs) (auto split: if_splits)

text \<open>
  An array passes the route's check of the body; the store then concatenates: the
  core memory becomes an array of the old document followed by the body's elements.
\<close>

lemma patch_core_memory_array:
  assumes "where_clause pg path = Some ref"
    and "find (agent_matches ref) (agents d) = Some a" and "core_memory a = JObj c"
  shows "fst (patch_core_memory pg d path (JArr xs))
           = Ok (JArr (map jsonb_strip_nulls (JObj c # xs)))"
proof -
  obtain rs where rs: "filter (agent_matches ref) (agents d) = a # rs"
    using filter_first[OF assms(2)] by blast
  show ?thesis using assms(1,3) rs by (simp add: patch_core_memory_def merge_patch_def)
qed




section \<open>Properties of duplicate detection\<close>

lemma set_order_by_desc [simp]: "set (order_by_desc k xs) = set xs"
  by (simp add: order_by_desc_def)

lemma order_by_desc_top:
  assumes "xs \<noteq> []"
  shows "\<exists>x rest. order_by_desc k xs = x # rest \<and> x \<in> set xs \<and> (\<forall>y \<in> set xs. k y \<le> k x)"
proof -
  let ?s = "sort_key (\<lambda>x. - k x) xs"
  have ne: "?s \<noteq> []" using assms by (metis length_sort list.size(3) length_0_conv)
  then obtain x rest where s: "?s = x # rest" by (cases ?s) auto
  have srt: "sorted (map (\<lambda>x. - k x) ?s)" by (rule sorted_sort_key)
  have st: "set ?s = set xs" by simp
  have "\<forall>y \<in> set ?s. - k x \<le> - k y" using srt s by auto
  then have "\<forall>y \<in> set xs. k y \<le> k x" using st by simp
  moreover have "x \<in> set xs" using s st by (metis list.set_intros(1))
  ultimately show ?thesis using s by (simp add: order_by_desc_def)
qed

lemma order_by_desc_Nil [simp]: "order_by_desc k [] = []"
  by (simp add: order_by_desc_def)

lemma trigram_query_hit:
  assumes "trgm_similarity e = Some sim"
    and "r0 \<in> set (table_rows d table)" and "agent_id r0 = agentId" and "decay_status r0 = Active"
    and "sim (text_column col r0) txt > TRIGRAM_THRESHOLD"
  shows "\<exists>r rest. trigram_query e d table col agentId txt = Some ((r, sim (text_column col r) txt) # rest)
           \<and> r \<in> set (table_rows d table) \<and> agent_id r = agentId \<and> decay_status r = Active
           \<and> sim (text_column col r) txt > TRIGRAM_THRESHOLD
           \<and> (\<forall>r' \<in> set (table_rows d table). agent_id r' = agentId \<and> decay_status r' = Active
                  \<longrightarrow> sim (text_column col r') txt \<le> sim (text_column col r) txt)"
proof -
  let ?P = "\<lambda>r. agent_id r = agentId \<and> decay_status r = Active
                  \<and> sim (text_column col r) txt > TRIGRAM_THRESHOLD"
  let ?c = "map (\<lambda>r. (r, sim (text_column col r) txt)) (filter ?P (table_rows d table))"
  have "?c \<noteq> []" using assms by (auto simp: filter_empty_conv)
  then obtain x rest where o: "order_by_desc snd ?c = x # rest" and xin: "x \<in> set ?c"
    and top: "\<forall>y \<in> set ?c. snd y \<le> snd x"
    using order_by_desc_top[of ?c snd] by blast
  obtain r where x: "x = (r, sim (text_column col r) txt)" and rin: "r \<in> set (table_rows d table)"
    and rP: "?P r" using xin by auto
  have "sim (text_column col r') txt \<le> sim (text_column col r) txt"
    if "r' \<in> set (table_rows d table)" "agent_id r' = agentId" "decay_status r' = Active" for r'
  proof (cases "sim (text_column col r') txt > TRIGRAM_THRESHOLD")
    case True
    then have "(r', sim (text_column col r') txt) \<in> set ?c" using that by auto
    then show ?thesis using top x by fastforce
  next
    case False
    then show ?thesis using rP by simp
  qed
  moreover have "trigram_query e d table col agentId txt = Some (take 1 (x # rest))"
    using assms(1) o by (simp add: trigram_query_def)
  ultimately show ?thesis using x rin rP
    apply (rule_tac x = r in exI) by simp
qed

lemma trigram_query_miss:
  assumes "trgm_similarity e = Some sim"
    and "\<forall>r \<in> set (table_rows d table). agent_id r = agentId \<and> decay_status r = Active
            \<longrightarrow> \<not> sim (text_column col r) txt > TRIGRAM_THRESHOLD"
  shows "trigram_query e d table col agentId txt = Some []"
proof -
  have "filter (\<lambda>r. agent_id r = agentId \<and> decay_status r = Active
                  \<and> sim (text_column col r) txt > TRIGRAM_THRESHOLD) (table_rows d table) = []"
    using assms(2) by (auto simp: filter_empty_conv)
  then show ?thesis using assms(1) by (simp add: trigram_query_def)
qed

lemma semantic_query_active:
  "(r, s) \<in> set (semantic_query e d table agentId v) \<Longrightarrow>
     r \<in> set (table_rows d table) \<and> agent_id r = agentId \<and> decay_status r = Active"
proof -
  assume "(r, s) \<in> set (semantic_query e d table agentId v)"
  then have "(r, s) \<in> set (List.map_filter
          (\<lambda>r. case embedding r of
                 None \<Rightarrow> None
               | Some x \<Rightarrow>
                   if agent_id r = agentId \<and> decay_status r = Active
                      \<and> 1 - cosine_distance e x v > SEMANTIC_THRESHOLD
                   then Some (r, 1 - cosine_distance e x v) else None)
          (table_rows d table))"
    unfolding semantic_query_def using in_set_takeD by fastforce
  then show ?thesis
    by (auto simp: List.map_filter_def split: option.splits if_splits)
qed

lemma trigram_query_active:
  "trigram_query e d table col agentId txt = Some rows \<Longrightarrow> (r, s) \<in> set rows \<Longrightarrow>
     r \<in> set (table_rows d table) \<and> agent_id r = agentId \<and> decay_status r = Active"
  by (auto simp: trigram_query_def split: option.splits dest!: in_set_takeD)


text \<open>
  C3, amended: the threshold is exclusive. For facts, tasks, events and session messages
  stage 1 compares the candidate text with the table's canonical content column:
  \<open>content\<close> for facts and session messages, \<open>title\<close> for tasks and events. Provided
  the trigram query does not raise: if some active row of the agent has a similarity
  strictly above 0.6, \<open>checkDuplicate\<close> returns a syntactic match on such a row, with
  that row's similarity, and no active row of the agent is more similar; otherwise stage 1
  yields nothing and any match returned is a semantic one.
\<close>

theorem checkDuplicate_syntactic_stage:
  assumes "trgm_similarity e = Some sim"
    and "(table, col) \<in> set [(''facts'', content), (''tasks'', title), (''events'', title),
                               (''session_messages'', content)]"
  shows "if \<exists>r \<in> set (table_rows d table).
               agent_id r = agentId \<and> decay_status r = Active \<and> sim (col r) txt > 6 / 10
         then \<exists>r \<in> set (table_rows d table).
               agent_id r = agentId \<and> decay_status r = Active \<and> sim (col r) txt > 6 / 10
               \<and> checkDuplicate e d table agentId txt
                   = Some \<lparr>dm_id = row_id r, dm_similarity = sim (col r) txt, dm_type = Syntactic\<rparr>
               \<and> (\<forall>r' \<in> set (table_rows d table).
                     agent_id r' = agentId \<and> decay_status r' = Active
                       \<longrightarrow> sim (col r') txt \<le> sim (col r) txt)
         else \<forall>m. checkDuplicate e d table agentId txt = Some m \<longrightarrow> dm_type m = Semantic"
proof -
  obtain c where cc: "CONTENT_COLUMN table = Some c" and col: "col = text_column c"
    using assms(2) by (auto simp: CONTENT_COLUMN_def text_column_def fun_eq_iff)
  show ?thesis
  proof (cases "\<exists>r \<in> set (table_rows d table).
               agent_id r = agentId \<and> decay_status r = Active \<and> sim (col r) txt > 6 / 10")
    case True
    then obtain r0 where "r0 \<in> set (table_rows d table)" "agent_id r0 = agentId"
      "decay_status r0 = Active" "sim (text_column c r0) txt > TRIGRAM_THRESHOLD"
      using col by (auto simp: TRIGRAM_THRESHOLD_def)
    from trigram_query_hit[OF assms(1) this]
    obtain r rest where q: "trigram_query e d table c agentId txt
                              = Some ((r, sim (text_column c r) txt) # rest)"
      and r: "r \<in> set (table_rows d table)" "agent_id r = agentId" "decay_status r = Active"
        "sim (text_column c r) txt > TRIGRAM_THRESHOLD"
      and top: "\<forall>r' \<in> set (table_rows d table). agent_id r' = agentId \<and> decay_status r' = Active
                  \<longrightarrow> sim (text_column c r') txt \<le> sim (text_column c r) txt"
      by blast
    have "checkDuplicate e d table agentId txt
            = Some \<lparr>dm_id = row_id r, dm_similarity = sim (col r) txt, dm_type = Syntactic\<rparr>"
      using cc q col by (simp add: checkDuplicate_def)
    then show ?thesis using True r top col by (auto simp: TRIGRAM_THRESHOLD_def)
  next
    case False
    then have "trigram_query e d table c agentId txt = Some []"
      using col by (intro trigram_query_miss[OF assms(1)]) (auto simp: TRIGRAM_THRESHOLD_def)
    then have "dm_type m = Semantic" if "checkDuplicate e d table agentId txt = Some m" for m
      using that cc by (auto simp: checkDuplicate_def split: option.splits list.splits)
    then show ?thesis using False by auto
  qed
qed

theorem checkDuplicate_syntactic_stage_witness:
  "checkDuplicate (lexical_env (sim_of [((''alpha beta'', ''alpha''), 7 / 10),
                                        ((''alpha gamma'', ''alpha''), 9 / 10)]))
     (empty_db\<lparr>facts := [(new_row 1 7 0)\<lparr>content := ''alpha beta''\<rparr>,
                          (new_row 2 7 0)\<lparr>content := ''alpha gamma''\<rparr>,
                          (new_row 3 7 0)\<lparr>content := ''alpha'', decay_status := Cooling\<rparr>]\<rparr>)
     ''facts'' 7 ''alpha''
   = Some \<lparr>dm_id = 2, dm_similarity = 9 / 10, dm_type = Syntactic\<rparr>"
proof -
  let ?sim = "sim_of [((''alpha beta'', ''alpha''), 7 / 10), ((''alpha gamma'', ''alpha''), 9 / 10)]"
  let ?d = "empty_db\<lparr>facts := [(new_row 1 7 0)\<lparr>content := ''alpha beta''\<rparr>,
                          (new_row 2 7 0)\<lparr>content := ''alpha gamma''\<rparr>,
                          (new_row 3 7 0)\<lparr>content := ''alpha'', decay_status := Cooling\<rparr>]\<rparr>"
  have h1: "trgm_similarity (lexical_env ?sim) = Some ?sim" by (simp add: lexical_env_def)
  have h2: "(''facts'', content) \<in> set [(''facts'', content), (''tasks'', title),
               (''events'', title), (''session_messages'', content)]" by simp
  have rows: "table_rows ?d ''facts'' = [(new_row 1 7 0)\<lparr>content := ''alpha beta''\<rparr>,
                          (new_row 2 7 0)\<lparr>content := ''alpha gamma''\<rparr>,
                          (new_row 3 7 0)\<lparr>content := ''alpha'', decay_status := Cooling\<rparr>]"
    by (simp add: table_rows_def empty_db_def)
  show ?thesis
    using checkDuplicate_syntactic_stage[OF h1 h2, of ?d 7 "''alpha''"]
    unfolding rows by (simp add: new_row_def sim_of_def)
qed

text \<open>
  C3, as the spec words it, at two concrete inputs. A fact \<open>ab c\<close> whose similarity to
  the candidate \<open>ab\<close> is exactly 0.6 (the value \<open>pg_trgm\<close> gives this pair) is "at least
  0.6" and yet is not returned: the query asks for \<open>similarity(...) > 0.6\<close>. A decision
  titled \<open>Use Postgres\<close> with decision \<open>Adopt it\<close> has the canonical text
  \<open>Use Postgres: Adopt it\<close> of the spec, equal to the candidate, and yet is not
  returned: \<open>CONTENT_COLUMN\<close> names the \<open>title\<close> column alone for decisions, while the
  decisions route passes title and decision as the candidate.
\<close>

theorem checkDuplicate_syntactic_counterexample:
  "sim_of [((''ab c'', ''ab''), 6 / 10)] ''ab c'' ''ab'' \<ge> 6 / 10
   \<and> checkDuplicate (lexical_env (sim_of [((''ab c'', ''ab''), 6 / 10)]))
        (empty_db\<lparr>facts := [(new_row 1 7 0)\<lparr>content := ''ab c''\<rparr>]\<rparr>)
        ''facts'' 7 ''ab'' = None
   \<and> sim_of [((''Use Postgres'', ''Use Postgres: Adopt it''), 13 / 22)]
        (''Use Postgres'' @ '': '' @ ''Adopt it'') ''Use Postgres: Adopt it'' \<ge> 6 / 10
   \<and> checkDuplicate (lexical_env (sim_of [((''Use Postgres'', ''Use Postgres: Adopt it''), 13 / 22)]))
        (empty_db\<lparr>decisions := [(new_row 1 7 0)\<lparr>title := ''Use Postgres'', decision := ''Adopt it''\<rparr>]\<rparr>)
        ''decisions'' 7 ''Use Postgres: Adopt it'' = None"
  by (simp add: sim_of_def checkDuplicate_def CONTENT_COLUMN_def trigram_query_def
      lexical_env_def empty_db_def table_rows_def new_row_def text_column_def
      TRIGRAM_THRESHOLD_def order_by_desc_def)

section \<open>Properties of the direct writes\<close>

lemma insert_row_simp:
  "insert_row t mk d = (mk (next_uuid d), set_table_rows t (table_rows d t @ [mk (next_uuid d)]) (d\<lparr>next_uuid := Suc (next_uuid d)\<rparr>))"
  by (simp add: insert_row_def Let_def)

text \<open>
  What the three deduplicating routes do, here for facts: a match answers 409 with the
  match's id and similarity and leaves the store as it was; no match appends the row.
\<close>

lemma post_fact_dedup:
  assumes "txt \<noteq> []"
  shows "case checkDuplicate e d ''facts'' a txt of
           Some dup \<Rightarrow> post_fact e d now (Some a) txt
                         = (Conflict ''Duplicate fact detected'' (dm_id dup) (dm_similarity dup), d)
         | None \<Rightarrow> (\<exists>r. fst (post_fact e d now (Some a) txt) = Created r
                        \<and> facts (snd (post_fact e d now (Some a) txt)) = facts d @ [r])"
  using assms
  by (simp add: post_fact_def insert_row_simp set_table_rows_def table_rows_def Let_def
      split: option.splits)

text \<open>
  The decisions route checks the text \<open>title: decision\<close> against the \<open>title\<close> column
  of the stored decisions, so the same decision posted twice is stored twice, where the
  same fact or task posted twice answers 409.
\<close>

lemma post_decision_stored_twice:
  "map (\<lambda>r. (row_id r, title r, decision r, decay_status r))
     (decisions (snd (post_decision
        (lexical_env (sim_of [((''Use Postgres'', ''Use Postgres: Adopt it''), 13 / 22)]))
        (snd (post_decision
           (lexical_env (sim_of [((''Use Postgres'', ''Use Postgres: Adopt it''), 13 / 22)]))
           empty_db 0 (Some 7) ''Use Postgres'' ''Adopt it'' None))
        1 (Some 7) ''Use Postgres'' ''Adopt it'' None)))
     = [(100, ''Use Postgres'', ''Adopt it'', Active),
        (101, ''Use Postgres'', ''Adopt it'', Active)]"
  by (simp add: post_decision_def insert_row_simp embedText_def lexical_env_def
      empty_db_def set_table_rows_def table_rows_def new_row_def
      checkDuplicate_def CONTENT_COLUMN_def trigram_query_def text_column_def sim_of_def
      TRIGRAM_THRESHOLD_def order_by_desc_def)

lemma post_event_never_conflicts:
  "fst (post_event e d now agent ttl ety descr occ) \<noteq> Conflict msg i s"
  by (simp add: post_event_def insert_row_simp Let_def split: option.splits)

text \<open>
  C2 at a concrete input. With a store whose trigram similarity of equal strings is 1,
  an event \<open>Deploy v1\<close> is posted twice for agent 7. The second POST answers 201 and
  the events table holds two active rows with the same title, although \<open>checkDuplicate\<close>
  on the events table, had the route called it, reports the first row with similarity 1.
  The same two requests against the tasks route answer 409 with \<open>existing_id\<close> 100 and
  leave the store unchanged.
\<close>

theorem post_event_skips_dedup:
  "map (\<lambda>r. (row_id r, title r, decay_status r))
     (events (snd (post_event (lexical_env (sim_of []))
        (snd (post_event (lexical_env (sim_of [])) empty_db 0 (Some 7)
                ''Deploy v1'' ''release'' None None))
        1 (Some 7) ''Deploy v1'' ''release'' None None)))
     = [(100, ''Deploy v1'', Active), (101, ''Deploy v1'', Active)]
   \<and> (\<exists>r. fst (post_event (lexical_env (sim_of []))
        (snd (post_event (lexical_env (sim_of [])) empty_db 0 (Some 7)
                ''Deploy v1'' ''release'' None None))
        1 (Some 7) ''Deploy v1'' ''release'' None None) = Created r)
   \<and> checkDuplicate (lexical_env (sim_of []))
        (snd (post_event (lexical_env (sim_of [])) empty_db 0 (Some 7)
                ''Deploy v1'' ''release'' None None))
        ''events'' 7 ''Deploy v1''
       = Some \<lparr>dm_id = 100, dm_similarity = 1, dm_type = Syntactic\<rparr>
   \<and> post_task (lexical_env (sim_of []))
        (snd (post_task (lexical_env (sim_of [])) empty_db 0 (Some 7) ''Deploy v1'' None))
        1 (Some 7) ''Deploy v1'' None
       = (Conflict ''Duplicate task detected'' 100 1,
          snd (post_task (lexical_env (sim_of [])) empty_db 0 (Some 7) ''Deploy v1'' None))"
  by (simp add: post_event_def post_task_def insert_row_simp embedText_def lexical_env_def
      empty_db_def set_table_rows_def table_rows_def new_row_def with_description_def
      checkDuplicate_def CONTENT_COLUMN_def trigram_query_def text_column_def sim_of_def
      TRIGRAM_THRESHOLD_def order_by_desc_def)

section \<open>Properties of recall\<close>

lemma set_update_first: "set (update_first P f xs) \<subseteq> set xs \<union> f ` set xs"
  by (induction xs) auto

lemma add_semantic_inv:
  assumes "\<forall>r \<in> set all. Q r"
    and "Q (new_result ty row \<lparr>semantic = Some (h_similarity row), keyword = None,
                               recency = None, graph_boost = None\<rparr>)"
    and "\<And>r x. Q r \<Longrightarrow> Q (r\<lparr>signals := (signals r)\<lparr>semantic := x\<rparr>\<rparr>)"
  shows "\<forall>r \<in> set (add_semantic ty all row). Q r"
  using assms set_update_first[of "\<lambda>r. r_id r = h_id row"
      "\<lambda>r. r\<lparr>signals := (signals r)\<lparr>semantic := Some (h_similarity row)\<rparr>\<rparr>" all]
  by (auto simp: add_semantic_def split: option.splits)

lemma add_keyword_inv:
  assumes "\<forall>r \<in> set all. Q r"
    and "Q (new_result ty row \<lparr>semantic = None, keyword = Some (h_similarity row),
                               recency = None, graph_boost = None\<rparr>)"
    and "\<And>r x. Q r \<Longrightarrow> Q (r\<lparr>signals := (signals r)\<lparr>keyword := x\<rparr>\<rparr>)"
  shows "\<forall>r \<in> set (add_keyword ty all row). Q r"
  using assms set_update_first[of "\<lambda>r. r_id r = h_id row"
      "\<lambda>r. r\<lparr>signals := (signals r)\<lparr>keyword := Some (h_similarity row)\<rparr>\<rparr>" all]
  by (auto simp: add_keyword_def split: option.splits)


lemma foldl_add_semantic_inv:
  assumes "\<forall>r \<in> set all. Q r"
    and "\<forall>row \<in> set rows. Q (new_result ty row \<lparr>semantic = Some (h_similarity row),
                               keyword = None, recency = None, graph_boost = None\<rparr>)"
    and upd: "\<And>r x. Q r \<Longrightarrow> Q (r\<lparr>signals := (signals r)\<lparr>semantic := x\<rparr>\<rparr>)"
  shows "\<forall>r \<in> set (foldl (add_semantic ty) all rows). Q r"
  using assms(1,2)
proof (induction rows arbitrary: all)
  case Nil
  then show ?case by simp
next
  case (Cons row rows)
  have new: "Q (new_result ty row \<lparr>semantic = Some (h_similarity row),
                               keyword = None, recency = None, graph_boost = None\<rparr>)"
    using Cons.prems(2) by simp
  have "\<forall>r \<in> set (add_semantic ty all row). Q r"
    using add_semantic_inv[where Q = Q, OF Cons.prems(1) new upd] .
  moreover have "\<forall>row \<in> set rows. Q (new_result ty row \<lparr>semantic = Some (h_similarity row),
                               keyword = None, recency = None, graph_boost = None\<rparr>)"
    using Cons.prems(2) by simp
  ultimately show ?case using Cons.IH by simp
qed

lemma foldl_add_keyword_inv:
  assumes "\<forall>r \<in> set all. Q r"
    and "\<forall>row \<in> set rows. Q (new_result ty row \<lparr>semantic = None,
                               keyword = Some (h_similarity row), recency = None,
                               graph_boost = None\<rparr>)"
    and upd: "\<And>r x. Q r \<Longrightarrow> Q (r\<lparr>signals := (signals r)\<lparr>keyword := x\<rparr>\<rparr>)"
  shows "\<forall>r \<in> set (foldl (add_keyword ty) all rows). Q r"
  using assms(1,2)
proof (induction rows arbitrary: all)
  case Nil
  then show ?case by simp
next
  case (Cons row rows)
  have new: "Q (new_result ty row \<lparr>semantic = None,
                               keyword = Some (h_similarity row), recency = None,
                               graph_boost = None\<rparr>)"
    using Cons.prems(2) by simp
  have "\<forall>r \<in> set (add_keyword ty all row). Q r"
    using add_keyword_inv[where Q = Q, OF Cons.prems(1) new upd] .
  moreover have "\<forall>row \<in> set rows. Q (new_result ty row \<lparr>semantic = None,
                               keyword = Some (h_similarity row), recency = None,
                               graph_boost = None\<rparr>)"
    using Cons.prems(2) by simp
  ultimately show ?case using Cons.IH by simp
qed

text \<open>The rows either arm returns are active rows of the agent in the table searched.\<close>

lemma semantic_rows_active:
  assumes "row \<in> set (semantic_rows e d t v a limit)"
  shows "\<exists>x \<in> set (table_rows d (rt_table t)).
           row_id x = h_id row \<and> agent_id x = a \<and> decay_status x = Active \<and> embedding x \<noteq> None"
proof -
  let ?c = "List.map_filter
             (\<lambda>r. case embedding r of
                    None \<Rightarrow> None
                  | Some x \<Rightarrow>
                      if agent_id r = a \<and> decay_status r = Active
                      then Some (r, cosine_distance e x v) else None)
             (table_rows d (rt_table t))"
  obtain x dist where xd: "(x, dist) \<in> set (take limit (order_by_asc snd ?c))"
    and row: "h_id row = row_id x"
    using assms by (auto simp: semantic_rows_def)
  have "(x, dist) \<in> set ?c" using in_set_takeD[OF xd] by (simp add: order_by_asc_def)
  then have "x \<in> set (table_rows d (rt_table t)) \<and> agent_id x = a \<and> decay_status x = Active
               \<and> embedding x \<noteq> None"
    by (auto simp: List.map_filter_def split: option.splits if_splits)
  then show ?thesis using row by auto
qed

lemma keyword_rows_active:
  assumes "keyword_rows e d t q a limit = Some rows" and "row \<in> set rows"
  shows "\<exists>x \<in> set (table_rows d (rt_table t)).
           row_id x = h_id row \<and> agent_id x = a \<and> decay_status x = Active"
proof -
  obtain sim where sim: "trgm_similarity e = Some sim"
    using assms(1) by (auto simp: keyword_rows_def split: option.splits)
  let ?c = "map (\<lambda>r. (r, sim (text_column (rt_contentCol t) r) q))
              (filter (\<lambda>r. agent_id r = a \<and> decay_status r = Active
                            \<and> sim (text_column (rt_contentCol t) r) q > 1 / 10)
                 (table_rows d (rt_table t)))"
  obtain x s where xs: "(x, s) \<in> set (take limit (order_by_desc snd ?c))"
    and row: "h_id row = row_id x"
    using assms sim by (auto simp: keyword_rows_def)
  have "(x, s) \<in> set ?c" using in_set_takeD[OF xs] by (simp add: order_by_desc_def)
  then show ?thesis using row by auto
qed

lemma search_table_inv:
  assumes all: "\<forall>r \<in> set all. Q r"
    and sem: "\<And>row v. qe = Some v \<Longrightarrow> row \<in> set (semantic_rows e d t v a limit) \<Longrightarrow>
           Q (new_result (rt_type t) row \<lparr>semantic = Some (h_similarity row), keyword = None,
                               recency = None, graph_boost = None\<rparr>)"
    and kw: "\<And>row rows. keyword_rows e d t q a limit = Some rows \<Longrightarrow> row \<in> set rows \<Longrightarrow>
           Q (new_result (rt_type t) row \<lparr>semantic = None, keyword = Some (h_similarity row),
                               recency = None, graph_boost = None\<rparr>)"
    and upd_s: "\<And>r x. qe \<noteq> None \<Longrightarrow> Q r \<Longrightarrow> Q (r\<lparr>signals := (signals r)\<lparr>semantic := x\<rparr>\<rparr>)"
    and upd_k: "\<And>r x. Q r \<Longrightarrow> Q (r\<lparr>signals := (signals r)\<lparr>keyword := x\<rparr>\<rparr>)"
  shows "\<forall>r \<in> set (search_table e d q qe a limit all t). Q r"
proof -
  let ?s = "case qe of None \<Rightarrow> all
            | Some v \<Rightarrow> foldl (add_semantic (rt_type t)) all (semantic_rows e d t v a limit)"
  have s: "\<forall>r \<in> set ?s. Q r"
  proof (cases qe)
    case None
    then show ?thesis using all by simp
  next
    case (Some v)
    have n: "\<forall>row \<in> set (semantic_rows e d t v a limit).
               Q (new_result (rt_type t) row \<lparr>semantic = Some (h_similarity row),
                    keyword = None, recency = None, graph_boost = None\<rparr>)"
      using sem[OF Some] by blast
    have u: "\<And>r x. Q r \<Longrightarrow> Q (r\<lparr>signals := (signals r)\<lparr>semantic := x\<rparr>\<rparr>)"
      using upd_s Some by simp
    have "\<forall>r \<in> set (foldl (add_semantic (rt_type t)) all (semantic_rows e d t v a limit)). Q r"
      using foldl_add_semantic_inv[where Q = Q, OF all n u] .
    then show ?thesis using Some by simp
  qed
  show ?thesis
  proof (cases "keyword_rows e d t q a limit")
    case None
    then show ?thesis using s by (simp add: search_table_def)
  next
    case (Some rows)
    have n: "\<forall>row \<in> set rows.
               Q (new_result (rt_type t) row \<lparr>semantic = None,
                    keyword = Some (h_similarity row), recency = None, graph_boost = None\<rparr>)"
      using kw[OF Some] by blast
    have "\<forall>r \<in> set (foldl (add_keyword (rt_type t)) ?s rows). Q r"
      using foldl_add_keyword_inv[where Q = Q, OF s n upd_k] .
    then show ?thesis using Some by (simp add: search_table_def)
  qed
qed

lemma fan_out_inv:
  assumes "\<forall>r \<in> set all. Q r"
    and sem: "\<And>t row v. t \<in> set ts \<Longrightarrow> qe = Some v \<Longrightarrow> row \<in> set (semantic_rows e d t v a limit) \<Longrightarrow>
           Q (new_result (rt_type t) row \<lparr>semantic = Some (h_similarity row), keyword = None,
                               recency = None, graph_boost = None\<rparr>)"
    and kw: "\<And>t row rows. t \<in> set ts \<Longrightarrow> keyword_rows e d t q a limit = Some rows \<Longrightarrow> row \<in> set rows \<Longrightarrow>
           Q (new_result (rt_type t) row \<lparr>semantic = None, keyword = Some (h_similarity row),
                               recency = None, graph_boost = None\<rparr>)"
    and upd_s: "\<And>r x. qe \<noteq> None \<Longrightarrow> Q r \<Longrightarrow> Q (r\<lparr>signals := (signals r)\<lparr>semantic := x\<rparr>\<rparr>)"
    and upd_k: "\<And>r x. Q r \<Longrightarrow> Q (r\<lparr>signals := (signals r)\<lparr>keyword := x\<rparr>\<rparr>)"
  shows "\<forall>r \<in> set (foldl (search_table e d q qe a limit) all ts). Q r"
  using assms(1) sem kw
proof (induction ts arbitrary: all)
  case Nil
  then show ?case by simp
next
  case (Cons t ts)
  have "\<forall>r \<in> set (search_table e d q qe a limit all t). Q r"
  proof (rule search_table_inv[where Q = Q, OF Cons.prems(1) _ _ upd_s upd_k])
    show "\<And>row v. qe = Some v \<Longrightarrow> row \<in> set (semantic_rows e d t v a limit) \<Longrightarrow>
           Q (new_result (rt_type t) row \<lparr>semantic = Some (h_similarity row), keyword = None,
                               recency = None, graph_boost = None\<rparr>)"
      using Cons.prems(2)[of t] by simp
    show "\<And>row rows. keyword_rows e d t q a limit = Some rows \<Longrightarrow> row \<in> set rows \<Longrightarrow>
           Q (new_result (rt_type t) row \<lparr>semantic = None, keyword = Some (h_similarity row),
                               recency = None, graph_boost = None\<rparr>)"
      using Cons.prems(3)[of t] by simp
  qed
  moreover have "\<And>t' row v. t' \<in> set ts \<Longrightarrow> qe = Some v \<Longrightarrow> row \<in> set (semantic_rows e d t' v a limit) \<Longrightarrow>
           Q (new_result (rt_type t') row \<lparr>semantic = Some (h_similarity row), keyword = None,
                               recency = None, graph_boost = None\<rparr>)"
    using Cons.prems(2) by simp
  moreover have "\<And>t' row rows. t' \<in> set ts \<Longrightarrow> keyword_rows e d t' q a limit = Some rows \<Longrightarrow> row \<in> set rows \<Longrightarrow>
           Q (new_result (rt_type t') row \<lparr>semantic = None, keyword = Some (h_similarity row),
                               recency = None, graph_boost = None\<rparr>)"
    using Cons.prems(3) by simp
  ultimately show ?case using Cons.IH[of "search_table e d q qe a limit all t"] by simp
qed

lemma set_attach_related:
  "r \<in> set (attach_related d a tops) \<Longrightarrow>
     r \<in> set tops \<or> (\<exists>c \<in> set tops. r = c\<lparr>related := Some (getRelatedItems d (r_id c) (r_type c) a)\<rparr>)"
  unfolding attach_related_def
  by (auto dest: in_set_takeD in_set_dropD)

lemma recall_ok:
  assumes "b_agent_id b = Some a" and "b_query b \<noteq> []"
  shows "fst (recall e d now b) =
     Ok \<lparr>results =
            (let tops = take (case b_limit b of None \<Rightarrow> 20 | Some l \<Rightarrow> l)
                          (order_by_desc score (recall_candidates e d now b a))
             in if (case b_include_related b of None \<Rightarrow> True | Some i \<Rightarrow> i) \<and> tops \<noteq> []
                then attach_related d a tops else tops),
          total = length
            (let tops = take (case b_limit b of None \<Rightarrow> 20 | Some l \<Rightarrow> l)
                          (order_by_desc score (recall_candidates e d now b a))
             in if (case b_include_related b of None \<Rightarrow> True | Some i \<Rightarrow> i) \<and> tops \<noteq> []
                then attach_related d a tops else tops),
          r_query = b_query b,
          weights =
           \<lparr>w_semantic = (case b_semantic_weight b of None \<Rightarrow> 7 / 10 | Some w \<Rightarrow> w),
            w_keyword = (case b_keyword_weight b of None \<Rightarrow> 2 / 10 | Some w \<Rightarrow> w),
            w_recency = (case b_recency_weight b of None \<Rightarrow> 1 / 10 | Some w \<Rightarrow> w)\<rparr>\<rparr>"
  using assms by (simp add: recall_def Let_def)

lemma recall_bad:
  assumes "fst (recall e d now b) = Ok resp"
  shows "\<exists>a. b_agent_id b = Some a \<and> b_query b \<noteq> []"
proof (cases "b_agent_id b")
  case None
  then show ?thesis using assms by (simp add: recall_def)
next
  case (Some a)
  then show ?thesis using assms by (cases "b_query b = []") (simp_all add: recall_def)
qed


lemma results_from_candidates:
  assumes "fst (recall e d now b) = Ok resp"
  shows "\<exists>a. b_agent_id b = Some a \<and> b_query b \<noteq> []
           \<and> (\<forall>r \<in> set (results resp). \<exists>c \<in> set (recall_candidates e d now b a).
                 r = c \<or> r = c\<lparr>related := Some (getRelatedItems d (r_id c) (r_type c) a)\<rparr>)"
proof -
  obtain a where a: "b_agent_id b = Some a" and q: "b_query b \<noteq> []"
    using recall_bad[OF assms] by blast
  let ?limit = "case b_limit b of None \<Rightarrow> 20 | Some l \<Rightarrow> l"
  let ?top = "take ?limit (order_by_desc score (recall_candidates e d now b a))"
  have "results resp = (if (case b_include_related b of None \<Rightarrow> True | Some i \<Rightarrow> i) \<and> ?top \<noteq> []
                        then attach_related d a ?top else ?top)"
    using assms unfolding recall_ok[OF a q] by (auto simp: Let_def)
  then have res: "results resp = ?top \<or> results resp = attach_related d a ?top"
    by presburger
  have sub: "set ?top \<subseteq> set (recall_candidates e d now b a)"
    using set_take_subset[of ?limit "order_by_desc score (recall_candidates e d now b a)"]
    by simp
  have "\<exists>c \<in> set (recall_candidates e d now b a).
          r = c \<or> r = c\<lparr>related := Some (getRelatedItems d (r_id c) (r_type c) a)\<rparr>"
    if "r \<in> set (results resp)" for r
  proof -
    from res show ?thesis
    proof
      assume "results resp = ?top"
      then have "r \<in> set (recall_candidates e d now b a)" using that sub by auto
      then show ?thesis by (rule_tac x = r in bexI) simp_all
    next
      assume "results resp = attach_related d a ?top"
      then have "r \<in> set (attach_related d a ?top)" using that by simp
      from set_attach_related[OF this]
      show ?thesis
      proof
        assume "r \<in> set ?top"
        then have "r \<in> set (recall_candidates e d now b a)" using sub by auto
        then show ?thesis by (rule_tac x = r in bexI) simp_all
      next
        assume "\<exists>c \<in> set ?top. r = c\<lparr>related := Some (getRelatedItems d (r_id c) (r_type c) a)\<rparr>"
        then obtain c where c: "c \<in> set ?top"
          and rc: "r = c\<lparr>related := Some (getRelatedItems d (r_id c) (r_type c) a)\<rparr>" by blast
        have "c \<in> set (recall_candidates e d now b a)" using c sub by auto
        then show ?thesis using rc by (rule_tac x = c in bexI) simp_all
      qed
    qed
  qed
  then show ?thesis using a q by blast
qed

lemma candidates_map:
  "recall_candidates e d now b a =
     map (with_score (case b_semantic_weight b of None \<Rightarrow> 7 / 10 | Some w \<Rightarrow> w)
                     (case b_keyword_weight b of None \<Rightarrow> 2 / 10 | Some w \<Rightarrow> w)
                     (case b_recency_weight b of None \<Rightarrow> 1 / 10 | Some w \<Rightarrow> w))
       (map (with_recency now)
          (foldl (search_table e d (b_query b) (embedText e (b_query b)) a
                    (case b_limit b of None \<Rightarrow> 20 | Some l \<Rightarrow> l)) []
             (tablesToSearch (b_types b))))"
  by (simp add: recall_candidates_def Let_def)

lemma candidate_score:
  assumes "c \<in> set (recall_candidates e d now b a)"
  shows "score c = or_zero (semantic (signals c)) * (case b_semantic_weight b of None \<Rightarrow> 7 / 10 | Some w \<Rightarrow> w)
                 + or_zero (keyword (signals c)) * (case b_keyword_weight b of None \<Rightarrow> 2 / 10 | Some w \<Rightarrow> w)
                 + or_zero (recency (signals c)) * (case b_recency_weight b of None \<Rightarrow> 1 / 10 | Some w \<Rightarrow> w)
                 + or_zero (graph_boost (signals c)) * (1 / 10)
         \<and> recency (signals c) = Some (max 0 (1 - of_int (now - r_created_at c) / maxAge))"
proof -
  obtain x where "c = with_score (case b_semantic_weight b of None \<Rightarrow> 7 / 10 | Some w \<Rightarrow> w)
                     (case b_keyword_weight b of None \<Rightarrow> 2 / 10 | Some w \<Rightarrow> w)
                     (case b_recency_weight b of None \<Rightarrow> 1 / 10 | Some w \<Rightarrow> w) (with_recency now x)"
    using assms unfolding candidates_map by auto
  then show ?thesis by (simp add: with_score_def with_recency_def)
qed

lemma recall_envelope:
  assumes "fst (recall e d now b) = Ok resp"
  shows "weights resp =
           \<lparr>w_semantic = (case b_semantic_weight b of None \<Rightarrow> 7 / 10 | Some w \<Rightarrow> w),
            w_keyword = (case b_keyword_weight b of None \<Rightarrow> 2 / 10 | Some w \<Rightarrow> w),
            w_recency = (case b_recency_weight b of None \<Rightarrow> 1 / 10 | Some w \<Rightarrow> w)\<rparr>
         \<and> total resp = length (results resp) \<and> r_query resp = b_query b"
proof -
  obtain a where a: "b_agent_id b = Some a" and q: "b_query b \<noteq> []"
    using recall_bad[OF assms] by blast
  show ?thesis using assms unfolding recall_ok[OF a q] by (auto simp: Let_def)
qed

lemma related_update_fields:
  fixes c :: RecallResult
  assumes "r = c \<or> r = c\<lparr>related := x\<rparr>"
  shows "score r = score c" "signals r = signals c" "r_created_at r = r_created_at c"
    "r_id r = r_id c" "r_type r = r_type c"
  using assms by auto

lemma result_score:
  assumes ok: "fst (recall e d now b) = Ok resp" and r: "r \<in> set (results resp)"
  shows "score r = w_semantic (weights resp) * or_zero (semantic (signals r))
                    + w_keyword (weights resp) * or_zero (keyword (signals r))
                    + w_recency (weights resp) * or_zero (recency (signals r))
                    + (1 / 10) * or_zero (graph_boost (signals r))"
    and "recency (signals r) = Some (max 0 (1 - of_int (now - r_created_at r) / maxAge))"
proof -
  obtain a c where c: "c \<in> set (recall_candidates e d now b a)"
    and rc: "r = c \<or> r = c\<lparr>related := Some (getRelatedItems d (r_id c) (r_type c) a)\<rparr>"
    using results_from_candidates[OF ok] r by blast
  note eq = related_update_fields(1-3)[OF rc]
  note env = recall_envelope[OF ok]
  have w: "(case b_semantic_weight b of None \<Rightarrow> 7 / 10 | Some w \<Rightarrow> w) = w_semantic (weights resp)"
    "(case b_keyword_weight b of None \<Rightarrow> 2 / 10 | Some w \<Rightarrow> w) = w_keyword (weights resp)"
    "(case b_recency_weight b of None \<Rightarrow> 1 / 10 | Some w \<Rightarrow> w) = w_recency (weights resp)"
    using env by simp_all
  note cs = candidate_score[OF c, unfolded w]
  show "score r = w_semantic (weights resp) * or_zero (semantic (signals r))
                    + w_keyword (weights resp) * or_zero (keyword (signals r))
                    + w_recency (weights resp) * or_zero (recency (signals r))
                    + (1 / 10) * or_zero (graph_boost (signals r))"
    unfolding eq using cs by (simp only: mult.commute)
  show "recency (signals r) = Some (max 0 (1 - of_int (now - r_created_at r) / maxAge))"
    unfolding eq using cs by (rule conjunct2)
qed


text \<open>
  C1. Every result of a recall carries
  \<open>score = semantic_weight * semantic + keyword_weight * keyword + recency_weight * recency
  + 0.1 * graph_boost\<close>, an absent signal counting as 0 and the weights being those the
  response echoes; and every candidate (hence every result) carries
  \<open>recency = max(0, 1 - (now - created_at) / maxAge)\<close> with \<open>maxAge\<close> = 90 days in
  milliseconds, \<open>created_at\<close> being the time column the table configuration selects
  (\<open>occurred_at\<close> for events).
\<close>

theorem recall_score_formula:
  assumes "fst (recall e d now b) = Ok resp"
  shows "(\<forall>r \<in> set (results resp).
            score r = w_semantic (weights resp) * or_zero (semantic (signals r))
                    + w_keyword (weights resp) * or_zero (keyword (signals r))
                    + w_recency (weights resp) * or_zero (recency (signals r))
                    + (1 / 10) * or_zero (graph_boost (signals r))
            \<and> recency (signals r)
                = Some (max 0 (1 - of_int (now - r_created_at r) / (90 * 24 * 60 * 60 * 1000))))
         \<and> (\<exists>a. b_agent_id b = Some a
               \<and> (\<forall>c \<in> set (recall_candidates e d now b a).
                     recency (signals c)
                       = Some (max 0 (1 - of_int (now - r_created_at c) / (90 * 24 * 60 * 60 * 1000)))))"
proof (intro conjI ballI)
  fix r assume r: "r \<in> set (results resp)"
  show "score r = w_semantic (weights resp) * or_zero (semantic (signals r))
                    + w_keyword (weights resp) * or_zero (keyword (signals r))
                    + w_recency (weights resp) * or_zero (recency (signals r))
                    + (1 / 10) * or_zero (graph_boost (signals r))"
    by (rule result_score(1)[OF assms r])
  show "recency (signals r)
          = Some (max 0 (1 - of_int (now - r_created_at r) / (90 * 24 * 60 * 60 * 1000)))"
    using result_score(2)[OF assms r] unfolding maxAge_def .
next
  obtain a where a: "b_agent_id b = Some a" using recall_bad[OF assms] by blast
  have "recency (signals c)
          = Some (max 0 (1 - of_int (now - r_created_at c) / (90 * 24 * 60 * 60 * 1000)))"
    if "c \<in> set (recall_candidates e d now b a)" for c
    using conjunct2[OF candidate_score[OF that]] unfolding maxAge_def .
  then show "\<exists>a. b_agent_id b = Some a
               \<and> (\<forall>c \<in> set (recall_candidates e d now b a).
                     recency (signals c)
                       = Some (max 0 (1 - of_int (now - r_created_at c) / (90 * 24 * 60 * 60 * 1000))))"
    using a by (intro exI[of _ a] conjI ballI)
qed

theorem recall_score_formula_witness:
  "\<exists>resp. fst (recall recall_env recall_db 3888000000 recall_req) = Ok resp
     \<and> map (\<lambda>r. (r_id r, score r)) (results resp) = [(3, 9 / 50), (1, 3 / 20)]
     \<and> list_all (\<lambda>r. score r = w_semantic (weights resp) * or_zero (semantic (signals r))
                              + w_keyword (weights resp) * or_zero (keyword (signals r))
                              + w_recency (weights resp) * or_zero (recency (signals r))
                              + (1 / 10) * or_zero (graph_boost (signals r))
                    \<and> recency (signals r)
                        = Some (max 0 (1 - of_int (3888000000 - r_created_at r)
                                             / (90 * 24 * 60 * 60 * 1000))))
         (results resp)"
proof -
  obtain resp where ok: "fst (recall recall_env recall_db 3888000000 recall_req) = Ok resp"
    using recall_ok[of recall_req 7 recall_env recall_db 3888000000]
    by (simp add: recall_req_def)
  have "map_option (\<lambda>resp. map (\<lambda>r. (r_id r, score r)) (results resp))
          (reply_body (fst (recall recall_env recall_db 3888000000 recall_req)))
        = Some [(3, 9 / 50), (1, 3 / 20)]"
    by code_simp
  then have ids: "map (\<lambda>r. (r_id r, score r)) (results resp) = [(3, 9 / 50), (1, 3 / 20)]"
    unfolding ok by simp
  have "list_all (\<lambda>r. score r = w_semantic (weights resp) * or_zero (semantic (signals r))
                              + w_keyword (weights resp) * or_zero (keyword (signals r))
                              + w_recency (weights resp) * or_zero (recency (signals r))
                              + (1 / 10) * or_zero (graph_boost (signals r))
                    \<and> recency (signals r)
                        = Some (max 0 (1 - of_int (3888000000 - r_created_at r)
                                             / (90 * 24 * 60 * 60 * 1000))))
         (results resp)"
    unfolding list_all_iff using recall_score_formula[OF ok] by (rule conjunct1)
  then show ?thesis by (intro exI[of _ resp] conjI ok ids)
qed

lemma candidates_inv:
  assumes sem: "\<And>t row v. t \<in> set (tablesToSearch (b_types b)) \<Longrightarrow> embedText e (b_query b) = Some v \<Longrightarrow>
              row \<in> set (semantic_rows e d t v a (case b_limit b of None \<Rightarrow> 20 | Some l \<Rightarrow> l)) \<Longrightarrow>
              Q (new_result (rt_type t) row \<lparr>semantic = Some (h_similarity row), keyword = None,
                               recency = None, graph_boost = None\<rparr>)"
    and kw: "\<And>t row rows. t \<in> set (tablesToSearch (b_types b)) \<Longrightarrow>
              keyword_rows e d t (b_query b) a (case b_limit b of None \<Rightarrow> 20 | Some l \<Rightarrow> l) = Some rows \<Longrightarrow>
              row \<in> set rows \<Longrightarrow>
              Q (new_result (rt_type t) row \<lparr>semantic = None, keyword = Some (h_similarity row),
                               recency = None, graph_boost = None\<rparr>)"
    and upd_s: "\<And>r x. embedText e (b_query b) \<noteq> None \<Longrightarrow> Q r \<Longrightarrow>
              Q (r\<lparr>signals := (signals r)\<lparr>semantic := x\<rparr>\<rparr>)"
    and upd_k: "\<And>r x. Q r \<Longrightarrow> Q (r\<lparr>signals := (signals r)\<lparr>keyword := x\<rparr>\<rparr>)"
    and upd_r: "\<And>r x. Q r \<Longrightarrow> Q (r\<lparr>signals := (signals r)\<lparr>recency := x\<rparr>\<rparr>)"
    and upd_sc: "\<And>r x. Q r \<Longrightarrow> Q (r\<lparr>score := x\<rparr>)"
    and c: "c \<in> set (recall_candidates e d now b a)"
  shows "Q c"
proof -
  let ?all = "foldl (search_table e d (b_query b) (embedText e (b_query b)) a
                    (case b_limit b of None \<Rightarrow> 20 | Some l \<Rightarrow> l)) []
             (tablesToSearch (b_types b))"
  have e: "\<forall>r \<in> set ([] :: RecallResult list). Q r" by simp
  have inv: "\<forall>r \<in> set ?all. Q r"
    by (rule fan_out_inv[where Q = Q, OF e sem kw upd_s upd_k])
  obtain x where x: "x \<in> set ?all"
    and cx: "c = with_score (case b_semantic_weight b of None \<Rightarrow> 7 / 10 | Some w \<Rightarrow> w)
                     (case b_keyword_weight b of None \<Rightarrow> 2 / 10 | Some w \<Rightarrow> w)
                     (case b_recency_weight b of None \<Rightarrow> 1 / 10 | Some w \<Rightarrow> w) (with_recency now x)"
    using c unfolding candidates_map by auto
  have "Q x" using inv x by blast
  then have "Q (with_recency now x)" unfolding with_recency_def by (rule upd_r)
  then show ?thesis unfolding cx with_score_def by (rule upd_sc)
qed

text \<open>Every candidate stands for an active row of the agent in the table of its type.\<close>

lemma candidate_active:
  assumes "c \<in> set (recall_candidates e d now b a)"
  shows "\<exists>t \<in> set (tablesToSearch (b_types b)). rt_type t = r_type c
           \<and> (\<exists>x \<in> set (table_rows d (rt_table t)).
                 row_id x = r_id c \<and> agent_id x = a \<and> decay_status x = Active)"
proof (rule candidates_inv[where Q = "\<lambda>c. \<exists>t \<in> set (tablesToSearch (b_types b)). rt_type t = r_type c
           \<and> (\<exists>x \<in> set (table_rows d (rt_table t)).
                 row_id x = r_id c \<and> agent_id x = a \<and> decay_status x = Active)", OF _ _ _ _ _ _ assms])
  fix t row v
  assume t: "t \<in> set (tablesToSearch (b_types b))"
    and "row \<in> set (semantic_rows e d t v a (case b_limit b of None \<Rightarrow> 20 | Some l \<Rightarrow> l))"
  from semantic_rows_active[OF this(2)] t
  show "\<exists>t' \<in> set (tablesToSearch (b_types b)).
          rt_type t' = r_type (new_result (rt_type t) row \<lparr>semantic = Some (h_similarity row),
                                  keyword = None, recency = None, graph_boost = None\<rparr>)
          \<and> (\<exists>x \<in> set (table_rows d (rt_table t')).
                row_id x = r_id (new_result (rt_type t) row \<lparr>semantic = Some (h_similarity row),
                                  keyword = None, recency = None, graph_boost = None\<rparr>)
                \<and> agent_id x = a \<and> decay_status x = Active)"
    by (auto simp: new_result_def)
next
  fix t row rows
  assume t: "t \<in> set (tablesToSearch (b_types b))"
    and "keyword_rows e d t (b_query b) a (case b_limit b of None \<Rightarrow> 20 | Some l \<Rightarrow> l) = Some rows"
    and "row \<in> set rows"
  from keyword_rows_active[OF this(2,3)] t
  show "\<exists>t' \<in> set (tablesToSearch (b_types b)).
          rt_type t' = r_type (new_result (rt_type t) row \<lparr>semantic = None,
                                  keyword = Some (h_similarity row), recency = None, graph_boost = None\<rparr>)
          \<and> (\<exists>x \<in> set (table_rows d (rt_table t')).
                row_id x = r_id (new_result (rt_type t) row \<lparr>semantic = None,
                                  keyword = Some (h_similarity row), recency = None, graph_boost = None\<rparr>)
                \<and> agent_id x = a \<and> decay_status x = Active)"
    by (auto simp: new_result_def)
qed simp_all

text \<open>Without a query embedding no candidate carries a semantic or graph signal.\<close>

lemma candidate_lexical:
  assumes "embedText e (b_query b) = None" and "c \<in> set (recall_candidates e d now b a)"
  shows "semantic (signals c) = None \<and> graph_boost (signals c) = None \<and> related c = None"
proof (rule candidates_inv[where Q = "\<lambda>c. semantic (signals c) = None
           \<and> graph_boost (signals c) = None \<and> related c = None", OF _ _ _ _ _ _ assms(2)])
  fix t row v
  assume "embedText e (b_query b) = Some v"
  then show "semantic (signals (new_result (rt_type t) row \<lparr>semantic = Some (h_similarity row),
                keyword = None, recency = None, graph_boost = None\<rparr>)) = None
         \<and> graph_boost (signals (new_result (rt_type t) row \<lparr>semantic = Some (h_similarity row),
                keyword = None, recency = None, graph_boost = None\<rparr>)) = None
         \<and> related (new_result (rt_type t) row \<lparr>semantic = Some (h_similarity row),
                keyword = None, recency = None, graph_boost = None\<rparr>) = None"
    using assms(1) by simp
next
  fix r :: RecallResult and x
  assume "embedText e (b_query b) \<noteq> None"
  then show "semantic (signals (r\<lparr>signals := (signals r)\<lparr>semantic := x\<rparr>\<rparr>)) = None
         \<and> graph_boost (signals (r\<lparr>signals := (signals r)\<lparr>semantic := x\<rparr>\<rparr>)) = None
         \<and> related (r\<lparr>signals := (signals r)\<lparr>semantic := x\<rparr>\<rparr>) = None"
    using assms(1) by simp
qed (simp_all add: new_result_def)

lemma related_no_semantic:
  "x \<in> set (getRelatedItems d i ty a) \<Longrightarrow>
     semantic (signals x) = None \<and> graph_boost (signals x) = Some (score x)"
  unfolding getRelatedItems_def Let_def
  by (auto split: option.splits list.splits)

lemma recall_tables_type_inj:
  assumes "t \<in> set RECALL_TABLES" "t' \<in> set RECALL_TABLES" "rt_type t = rt_type t'"
  shows "t = t'"
proof -
  have "distinct (map rt_type RECALL_TABLES)" by (simp add: RECALL_TABLES_def)
  then have "inj_on rt_type (set RECALL_TABLES)" by (simp add: distinct_map)
  then show ?thesis using assms by (meson inj_onD)
qed

lemma tablesToSearch_subset: "set (tablesToSearch types) \<subseteq> set RECALL_TABLES"
  by (simp add: tablesToSearch_def)

lemma distinct_row_id:
  "distinct (map row_id xs) \<Longrightarrow> x \<in> set xs \<Longrightarrow> y \<in> set xs \<Longrightarrow> row_id x = row_id y \<Longrightarrow> x = y"
  by (meson distinct_map inj_onD)

lemma checkDuplicate_active:
  assumes "checkDuplicate e d table a txt = Some m"
  shows "\<exists>x \<in> set (table_rows d table). row_id x = dm_id m \<and> agent_id x = a \<and> decay_status x = Active"
proof -
  obtain c where c: "CONTENT_COLUMN table = Some c"
    using assms by (auto simp: checkDuplicate_def split: option.splits)
  show ?thesis
  proof (cases "case trigram_query e d table c a txt of None \<Rightarrow> [] | Some rows \<Rightarrow> rows")
    case (Cons p rest)
    obtain r s where p: "p = (r, s)" by (cases p)
    obtain rows where rows: "trigram_query e d table c a txt = Some rows" and rs: "(r, s) \<in> set rows"
      using Cons p by (auto split: option.splits)
    have "m = \<lparr>dm_id = row_id r, dm_similarity = s, dm_type = Syntactic\<rparr>"
      using assms c Cons p by (simp add: checkDuplicate_def)
    then show ?thesis using trigram_query_active[OF rows rs] by auto
  next
    case Nil
    then obtain f v r s rest where "semantic_query e d table a v = (r, s) # rest"
      and m: "m = \<lparr>dm_id = row_id r, dm_similarity = s, dm_type = Semantic\<rparr>"
      using assms c by (auto simp: checkDuplicate_def split: option.splits list.splits)
    then have "(r, s) \<in> set (semantic_query e d table a v)" by simp
    from semantic_query_active[OF this] show ?thesis using m by auto
  qed
qed

lemma result_active:
  assumes ok: "fst (recall e d now b) = Ok resp" and r: "r \<in> set (results resp)"
  shows "\<exists>t \<in> set RECALL_TABLES. rt_type t = r_type r
          \<and> (\<exists>x \<in> set (table_rows d (rt_table t)).
                row_id x = r_id r \<and> b_agent_id b = Some (agent_id x) \<and> decay_status x = Active)"
proof -
  obtain a c where a: "b_agent_id b = Some a" and c: "c \<in> set (recall_candidates e d now b a)"
    and rc: "r = c \<or> r = c\<lparr>related := Some (getRelatedItems d (r_id c) (r_type c) a)\<rparr>"
    using results_from_candidates[OF ok] r by blast
  note eq = related_update_fields(4,5)[OF rc]
  obtain t x where t: "t \<in> set (tablesToSearch (b_types b))" "rt_type t = r_type r"
    and x: "x \<in> set (table_rows d (rt_table t))" "row_id x = r_id r" "agent_id x = a"
      "decay_status x = Active"
    using candidate_active[OF c] unfolding eq by blast
  have "t \<in> set RECALL_TABLES" using t(1) tablesToSearch_subset by blast
  then show ?thesis using t(2) x a by blast
qed

lemma active_unique:
  assumes pk: "distinct (map row_id rows)"
    and "x \<in> set rows" "decay_status x = Active" "y \<in> set rows" "row_id y = row_id x"
  shows "decay_status y = Active"
  using distinct_row_id[OF pk, of y x] assms by simp

text \<open>
  C4. Under the primary keys of the tables: every result among the top-K of a recall has
  the id of an active row of the requesting agent in the table of the result's type, and
  no row of that table with this id is cooling or archived; every match that
  \<open>checkDuplicate\<close> returns has the id of an active row of the agent in the table
  checked, and no row of that table with this id is cooling or archived.
\<close>

theorem only_active_candidates:
  assumes pk: "\<forall>table. distinct (map row_id (table_rows d table))"
  shows "(\<forall>resp. fst (recall e d now b) = Ok resp \<longrightarrow>
            (\<forall>r \<in> set (results resp).
               (\<exists>t \<in> set RECALL_TABLES. rt_type t = r_type r
                  \<and> (\<exists>x \<in> set (table_rows d (rt_table t)).
                        row_id x = r_id r \<and> b_agent_id b = Some (agent_id x)
                        \<and> decay_status x = Active))
               \<and> (\<forall>t \<in> set RECALL_TABLES. \<forall>x \<in> set (table_rows d (rt_table t)).
                     rt_type t = r_type r \<and> row_id x = r_id r \<longrightarrow> decay_status x = Active)))
       \<and> (\<forall>table a txt m. checkDuplicate e d table a txt = Some m \<longrightarrow>
            (\<exists>x \<in> set (table_rows d table).
                row_id x = dm_id m \<and> agent_id x = a \<and> decay_status x = Active)
            \<and> (\<forall>x \<in> set (table_rows d table). row_id x = dm_id m \<longrightarrow> decay_status x = Active))"
proof -
  have recall_part:
    "(\<exists>t \<in> set RECALL_TABLES. rt_type t = r_type r
        \<and> (\<exists>x \<in> set (table_rows d (rt_table t)).
              row_id x = r_id r \<and> b_agent_id b = Some (agent_id x) \<and> decay_status x = Active))
     \<and> (\<forall>t \<in> set RECALL_TABLES. \<forall>x \<in> set (table_rows d (rt_table t)).
           rt_type t = r_type r \<and> row_id x = r_id r \<longrightarrow> decay_status x = Active)"
    if ok: "fst (recall e d now b) = Ok resp" and r: "r \<in> set (results resp)" for resp r
  proof -
    obtain t x where t: "t \<in> set RECALL_TABLES" "rt_type t = r_type r"
      and x: "x \<in> set (table_rows d (rt_table t))" "row_id x = r_id r"
        "b_agent_id b = Some (agent_id x)" "decay_status x = Active"
      using result_active[OF ok r] by blast
    have "decay_status y = Active"
      if "t' \<in> set RECALL_TABLES" "y \<in> set (table_rows d (rt_table t'))"
        "rt_type t' = r_type r \<and> row_id y = r_id r" for t' y
    proof -
      have "t' = t" using recall_tables_type_inj[OF that(1) t(1)] that(3) t(2) by simp
      then show ?thesis
        using active_unique[OF pk[rule_format, of "rt_table t"] x(1) x(4), of y] that x(2)
        by simp
    qed
    then show ?thesis using result_active[OF ok r] by blast
  qed
  have dedup_part:
    "(\<exists>x \<in> set (table_rows d tb).
         row_id x = dm_id dm \<and> agent_id x = ag \<and> decay_status x = Active)
     \<and> (\<forall>x \<in> set (table_rows d tb). row_id x = dm_id dm \<longrightarrow> decay_status x = Active)"
    if hit: "checkDuplicate e d tb ag tx = Some dm" for tb ag tx dm
  proof -
    obtain x where x: "x \<in> set (table_rows d tb)" "row_id x = dm_id dm" "agent_id x = ag"
      "decay_status x = Active"
      using checkDuplicate_active[OF hit] by blast
    have "decay_status y = Active" if "y \<in> set (table_rows d tb)" "row_id y = dm_id dm" for y
      using active_unique[OF pk[rule_format, of tb] x(1) x(4), of y] that x(2) by simp
    then show ?thesis using x by blast
  qed
  show ?thesis
  proof (rule conjI)
    show "\<forall>resp. fst (recall e d now b) = Ok resp \<longrightarrow>
            (\<forall>r \<in> set (results resp).
               (\<exists>t \<in> set RECALL_TABLES. rt_type t = r_type r
                  \<and> (\<exists>x \<in> set (table_rows d (rt_table t)).
                        row_id x = r_id r \<and> b_agent_id b = Some (agent_id x)
                        \<and> decay_status x = Active))
               \<and> (\<forall>t \<in> set RECALL_TABLES. \<forall>x \<in> set (table_rows d (rt_table t)).
                     rt_type t = r_type r \<and> row_id x = r_id r \<longrightarrow> decay_status x = Active))"
      using recall_part by (intro allI impI ballI)
    show "\<forall>table a txt m. checkDuplicate e d table a txt = Some m \<longrightarrow>
            (\<exists>x \<in> set (table_rows d table).
                row_id x = dm_id m \<and> agent_id x = a \<and> decay_status x = Active)
            \<and> (\<forall>x \<in> set (table_rows d table). row_id x = dm_id m \<longrightarrow> decay_status x = Active)"
      using dedup_part by (intro allI impI)
  qed
qed

theorem only_active_candidates_witness:
  "\<exists>resp. fst (recall recall_env recall_db 3888000000 recall_req) = Ok resp
     \<and> map r_id (results resp) = [3, 1]
     \<and> list_all (\<lambda>r. \<exists>t \<in> set RECALL_TABLES. rt_type t = r_type r
                  \<and> (\<exists>x \<in> set (table_rows recall_db (rt_table t)).
                        row_id x = r_id r \<and> b_agent_id recall_req = Some (agent_id x)
                        \<and> decay_status x = Active)) (results resp)
     \<and> checkDuplicate recall_env recall_db ''facts'' 7 ''fastify server''
         = Some \<lparr>dm_id = 1, dm_similarity = 1, dm_type = Syntactic\<rparr>
     \<and> (\<exists>x \<in> set (table_rows recall_db ''facts''). row_id x = 1 \<and> decay_status x = Active)
     \<and> checkDuplicate recall_env recall_db ''facts'' 7 ''fastify'' = None"
proof -
  have pk: "\<forall>table. distinct (map row_id (table_rows recall_db table))"
    by (simp add: table_rows_def recall_db_def empty_db_def new_row_def)
  note inst = only_active_candidates[OF pk, of recall_env 3888000000 recall_req]
  obtain resp where ok: "fst (recall recall_env recall_db 3888000000 recall_req) = Ok resp"
    using recall_ok[of recall_req 7 recall_env recall_db 3888000000]
    by (simp add: recall_req_def)
  have "map_option (\<lambda>resp. map r_id (results resp))
          (reply_body (fst (recall recall_env recall_db 3888000000 recall_req)))
        = Some [3, 1]"
    by code_simp
  then have ids: "map r_id (results resp) = [3, 1]" unfolding ok by simp
  have act: "list_all (\<lambda>r. \<exists>t \<in> set RECALL_TABLES. rt_type t = r_type r
                  \<and> (\<exists>x \<in> set (table_rows recall_db (rt_table t)).
                        row_id x = r_id r \<and> b_agent_id recall_req = Some (agent_id x)
                        \<and> decay_status x = Active)) (results resp)"
    unfolding list_all_iff using conjunct1[OF inst] ok by blast
  have d1: "checkDuplicate recall_env recall_db ''facts'' 7 ''fastify server''
              = Some \<lparr>dm_id = 1, dm_similarity = 1, dm_type = Syntactic\<rparr>"
    by code_simp
  have d2: "checkDuplicate recall_env recall_db ''facts'' 7 ''fastify'' = None"
    by code_simp
  have "\<exists>x \<in> set (table_rows recall_db ''facts'').
           row_id x = dm_id \<lparr>dm_id = 1, dm_similarity = 1, dm_type = Syntactic\<rparr>
           \<and> agent_id x = 7 \<and> decay_status x = Active"
    using conjunct2[OF inst] d1 by blast
  then have d3: "\<exists>x \<in> set (table_rows recall_db ''facts''). row_id x = 1 \<and> decay_status x = Active"
    by auto
  show ?thesis by (intro exI[of _ resp] conjI ok ids act d1 d2 d3)
qed

text \<open>
  C9. When no embedding provider is configured, or embedding the query throws, a recall
  with a query and an agent id still answers 200 with \<open>results\<close>, \<open>total\<close> (the number
  of results), \<open>query\<close> and \<open>weights\<close>; no result, and no related entry under a result,
  has a semantic signal, and every score is
  \<open>keyword_weight * keyword + recency_weight * recency\<close>.
\<close>

theorem recall_lexical_fallback:
  assumes "provider e = None \<or> (\<exists>f. provider e = Some f \<and> f (b_query b) = None)"
    and "b_agent_id b = Some a" and "b_query b \<noteq> []"
  shows "\<exists>resp. fst (recall e d now b) = Ok resp
           \<and> total resp = length (results resp) \<and> r_query resp = b_query b
           \<and> weights resp =
               \<lparr>w_semantic = (case b_semantic_weight b of None \<Rightarrow> 7 / 10 | Some w \<Rightarrow> w),
                w_keyword = (case b_keyword_weight b of None \<Rightarrow> 2 / 10 | Some w \<Rightarrow> w),
                w_recency = (case b_recency_weight b of None \<Rightarrow> 1 / 10 | Some w \<Rightarrow> w)\<rparr>
           \<and> (\<forall>r \<in> set (results resp).
                 semantic (signals r) = None
                 \<and> score r = w_keyword (weights resp) * or_zero (keyword (signals r))
                            + w_recency (weights resp) * or_zero (recency (signals r))
                 \<and> (\<forall>x \<in> set (case related r of None \<Rightarrow> [] | Some xs \<Rightarrow> xs).
                       semantic (signals x) = None))"
proof -
  have noemb: "embedText e (b_query b) = None"
    using assms(1) by (auto simp: embedText_def)
  obtain resp where ok: "fst (recall e d now b) = Ok resp"
    using recall_ok[OF assms(2,3)] by blast
  note env = recall_envelope[OF ok]
  have each: "semantic (signals r) = None
                 \<and> score r = w_keyword (weights resp) * or_zero (keyword (signals r))
                            + w_recency (weights resp) * or_zero (recency (signals r))
                 \<and> (\<forall>x \<in> set (case related r of None \<Rightarrow> [] | Some xs \<Rightarrow> xs).
                       semantic (signals x) = None)"
    if r: "r \<in> set (results resp)" for r
  proof -
    obtain a' c where a': "b_agent_id b = Some a'" and c: "c \<in> set (recall_candidates e d now b a')"
      and rc: "r = c \<or> r = c\<lparr>related := Some (getRelatedItems d (r_id c) (r_type c) a')\<rparr>"
      using results_from_candidates[OF ok] r by blast
    note eq = related_update_fields(2)[OF rc]
    note lex = candidate_lexical[OF noemb c]
    have s: "semantic (signals r) = None" and g: "graph_boost (signals r) = None"
      using lex unfolding eq by simp_all
    have "score r = w_keyword (weights resp) * or_zero (keyword (signals r))
                            + w_recency (weights resp) * or_zero (recency (signals r))"
      using result_score(1)[OF ok r] unfolding s g by simp
    moreover have "semantic (signals x) = None"
      if "x \<in> set (case related r of None \<Rightarrow> [] | Some xs \<Rightarrow> xs)" for x
    proof -
      from rc show ?thesis
      proof
        assume "r = c"
        then show ?thesis using that lex by simp
      next
        assume "r = c\<lparr>related := Some (getRelatedItems d (r_id c) (r_type c) a')\<rparr>"
        then have "x \<in> set (getRelatedItems d (r_id c) (r_type c) a')" using that by simp
        then show ?thesis using related_no_semantic by blast
      qed
    qed
    ultimately show ?thesis using s by blast
  qed
  show ?thesis
    apply (rule exI[of _ resp])
    using ok env each by blast
qed

theorem recall_lexical_fallback_witness:
  "\<exists>resp. fst (recall recall_env recall_db 3888000000 recall_req) = Ok resp
     \<and> total resp = 2 \<and> r_query resp = ''fastify''
     \<and> weights resp = \<lparr>w_semantic = 7 / 10, w_keyword = 2 / 10, w_recency = 1 / 10\<rparr>
     \<and> list_all (\<lambda>r. semantic (signals r) = None
                    \<and> score r = w_keyword (weights resp) * or_zero (keyword (signals r))
                               + w_recency (weights resp) * or_zero (recency (signals r)))
         (results resp)"
proof -
  have h1: "provider recall_env = None
              \<or> (\<exists>f. provider recall_env = Some f \<and> f (b_query recall_req) = None)"
    by (simp add: recall_env_def lexical_env_def)
  have h2: "b_agent_id recall_req = Some 7" by (simp add: recall_req_def)
  have h3: "b_query recall_req \<noteq> []" by (simp add: recall_req_def)
  obtain resp where ok: "fst (recall recall_env recall_db 3888000000 recall_req) = Ok resp"
    and tot: "total resp = length (results resp)" and q: "r_query resp = b_query recall_req"
    and w: "weights resp =
               \<lparr>w_semantic = (case b_semantic_weight recall_req of None \<Rightarrow> 7 / 10 | Some w \<Rightarrow> w),
                w_keyword = (case b_keyword_weight recall_req of None \<Rightarrow> 2 / 10 | Some w \<Rightarrow> w),
                w_recency = (case b_recency_weight recall_req of None \<Rightarrow> 1 / 10 | Some w \<Rightarrow> w)\<rparr>"
    and each: "\<forall>r \<in> set (results resp).
                 semantic (signals r) = None
                 \<and> score r = w_keyword (weights resp) * or_zero (keyword (signals r))
                            + w_recency (weights resp) * or_zero (recency (signals r))
                 \<and> (\<forall>x \<in> set (case related r of None \<Rightarrow> [] | Some xs \<Rightarrow> xs).
                       semantic (signals x) = None)"
    using recall_lexical_fallback[OF h1 h2 h3, of recall_db 3888000000] by blast
  have "map_option (\<lambda>resp. length (results resp))
          (reply_body (fst (recall recall_env recall_db 3888000000 recall_req))) = Some 2"
    by code_simp
  then have len: "length (results resp) = 2" unfolding ok by simp
  have all: "list_all (\<lambda>r. semantic (signals r) = None
                    \<and> score r = w_keyword (weights resp) * or_zero (keyword (signals r))
                               + w_recency (weights resp) * or_zero (recency (signals r)))
         (results resp)"
    unfolding list_all_iff using each by blast
  have w': "weights resp = \<lparr>w_semantic = 7 / 10, w_keyword = 2 / 10, w_recency = 1 / 10\<rparr>"
    using w by (simp add: recall_req_def)
  have q': "r_query resp = ''fastify''" using q by (simp add: recall_req_def)
  have tot': "total resp = 2" using tot len by simp
  show ?thesis by (intro exI[of _ resp] conjI ok tot' q' w' all)
qed

text \<open>
  C10. A recall whose \<open>types\<close> is the empty array searches all five tables and is, reply
  and store, the recall of the same request without \<open>types\<close>.
\<close>

theorem recall_empty_types:
  "tablesToSearch (Some []) = tablesToSearch None
   \<and> map rt_table (tablesToSearch (Some []))
       = [''session_messages'', ''facts'', ''decisions'', ''tasks'', ''events'']
   \<and> recall e d now (b\<lparr>b_types := Some []\<rparr>) = recall e d now (b\<lparr>b_types := None\<rparr>)"
proof -
  have ts: "tablesToSearch (Some []) = tablesToSearch None"
    by (simp add: tablesToSearch_def)
  have names: "map rt_table (tablesToSearch (Some []))
                 = [''session_messages'', ''facts'', ''decisions'', ''tasks'', ''events'']"
    by (simp add: tablesToSearch_def RECALL_TABLES_def)
  have c: "recall_candidates e d now (b\<lparr>b_types := Some []\<rparr>) a
             = recall_candidates e d now (b\<lparr>b_types := None\<rparr>) a" for a
    by (simp add: recall_candidates_def ts)
  have "recall e d now (b\<lparr>b_types := Some []\<rparr>) = recall e d now (b\<lparr>b_types := None\<rparr>)"
    by (simp add: recall_def c Let_def split: option.splits)
  then show ?thesis using ts names by simp
qed

theorem recall_empty_types_witness:
  "recall recall_env recall_db 3888000000 (recall_req\<lparr>b_types := Some []\<rparr>)
     = recall recall_env recall_db 3888000000 (recall_req\<lparr>b_types := None\<rparr>)
   \<and> map_option (\<lambda>resp. map r_type (results resp))
        (reply_body (fst (recall recall_env recall_db 3888000000 (recall_req\<lparr>b_types := Some []\<rparr>))))
       = Some [''event'', ''fact'']"
proof -
  have "map_option (\<lambda>resp. map r_type (results resp))
        (reply_body (fst (recall recall_env recall_db 3888000000 (recall_req\<lparr>b_types := Some []\<rparr>))))
       = Some [''event'', ''fact'']"
    by code_simp
  then show ?thesis
    using recall_empty_types[of recall_env recall_db 3888000000 recall_req] by simp
qed

section \<open>Properties of the relationship graph\<close>




lemma edge_metadata_absent [simp]:
  "eb_metadata b = None \<Longrightarrow> edge_metadata pg b = Some (JObj [])"
  by (simp add: edge_metadata_def)

lemma edge_metadata_object [simp]:
  "eb_metadata b = Some (JObj kvs) \<Longrightarrow> edge_metadata pg b = Some (JObj kvs)"
  by (simp add: edge_metadata_def)

lemma edge_metadata_array:
  "eb_metadata b = Some (JArr (x # xs)) \<Longrightarrow> edge_metadata pg b = None"
  by (simp add: edge_metadata_def)

lemma edge_metadata_text:
  "eb_metadata b = Some (JStr (c # cs)) \<Longrightarrow> edge_metadata pg b = jsonb_in pg (c # cs)"
  by (simp add: edge_metadata_def)

lemma edge_weight_absent [simp]:
  "eb_weight b = None \<Longrightarrow> edge_weight pg b = Some 1"
  by (simp add: edge_weight_def)

text \<open>
  A request whose weight or metadata the columns cannot read answers 400 and changes
  nothing.
\<close>

lemma post_edge_unreadable:
  assumes "edge_weight pg b = None \<or> edge_metadata pg b = None"
  shows "\<exists>msg. post_edge pg d b = (BadRequest msg, d)"
  using assms by (auto simp: post_edge_def split: option.splits)







text \<open>
  The same second POST with metadata that is a text but no JSON, or a non-empty array:
  the store raises, the route answers 400 and the edge keeps its weight and metadata.
\<close>

lemma post_edge_rejects_metadata:
  "list_all (\<lambda>m. \<exists>msg.
      post_edge example_pg (snd (post_edge example_pg edge_db (edge_req (Some (9 / 10)) None)))
        (edge_req (Some 1) (Some m))
      = (BadRequest msg, snd (post_edge example_pg edge_db (edge_req (Some (9 / 10)) None))))
     [JStr ''abc'', JArr [JNum 1, JNum 2]]"
proof -
  have "edge_metadata example_pg (edge_req (Some 1) (Some m)) = None"
    if "m \<in> set [JStr ''abc'', JArr [JNum 1, JNum 2]]" for m
    using that by (auto simp: edge_metadata_def edge_req_def example_pg_def)
  then show ?thesis
    using post_edge_unreadable by (simp add: list_all_iff)
qed

section \<open>Properties of the decay sweep\<close>

lemma memory_table_cases:
  "t \<in> set MEMORY_TABLES \<Longrightarrow>
     t = ''facts'' \<or> t = ''decisions'' \<or> t = ''tasks'' \<or> t = ''events'' \<or> t = ''session_messages''"
  by (auto simp: MEMORY_TABLES_def)

lemma table_rows_set_same:
  "t \<in> set MEMORY_TABLES \<Longrightarrow> table_rows (set_table_rows t rs d) t = rs"
  by (drule memory_table_cases) (auto simp: table_rows_def set_table_rows_def)

lemma table_rows_set_other:
  "t' \<noteq> t \<Longrightarrow> table_rows (set_table_rows t rs d) t' = table_rows d t'"
  by (auto simp: table_rows_def set_table_rows_def)

lemma policies_set_table_rows [simp]:
  "decay_policies (set_table_rows t rs d) = decay_policies d"
  by (simp add: set_table_rows_def)

lemma set_table_rows_id:
  "set_table_rows t (table_rows d t) d = d"
  by (simp add: set_table_rows_def table_rows_def)

lemma resolve_policy_cong:
  "decay_policies d' = decay_policies d \<Longrightarrow> resolve_policy d' ty ag = resolve_policy d ty ag"
  by (simp add: resolve_policy_def)

lemma sweep_table_db:
  assumes "TABLE_TO_TYPE t = Some ty"
  shows "snd (sweep_table now ag acc t) =
           set_table_rows t
             (swept_rows now ag (resolve_policy (snd acc) ty ag) t (table_rows (snd acc) t))
             (snd acc)"
proof (cases "TABLE_TIMESTAMPS t")
  case None
  then show ?thesis
    using assms by (simp add: sweep_table_def swept_rows_def set_table_rows_id split: option.splits)
next
  case (Some cu)
  obtain c u where cu: "cu = (c, u)" by (cases cu)
  show ?thesis
    using assms Some cu
    by (simp add: sweep_table_def swept_rows_def set_table_rows_id Let_def split: option.splits)
qed

lemma table_to_type_total:
  "t \<in> set MEMORY_TABLES \<Longrightarrow> \<exists>ty c u. TABLE_TO_TYPE t = Some ty \<and> TABLE_TIMESTAMPS t = Some (c, u)"
  by (drule memory_table_cases) (auto simp: TABLE_TO_TYPE_def TABLE_TIMESTAMPS_def)

lemma sweep_fold:
  assumes "set ts \<subseteq> set MEMORY_TABLES" and "distinct ts" and "TABLE_TO_TYPE t = Some ty"
    and "t \<in> set MEMORY_TABLES"
  shows "decay_policies (snd (foldl (sweep_table now ag) acc ts)) = decay_policies (snd acc)
         \<and> table_rows (snd (foldl (sweep_table now ag) acc ts)) t =
             (if t \<in> set ts
              then swept_rows now ag (resolve_policy (snd acc) ty ag) t (table_rows (snd acc) t)
              else table_rows (snd acc) t)"
  using assms(1,2)
proof (induction ts arbitrary: acc)
  case Nil
  then show ?case by simp
next
  case (Cons x xs)
  obtain tx where tx: "TABLE_TO_TYPE x = Some tx"
    using table_to_type_total[of x] Cons.prems(1) by auto
  let ?acc = "sweep_table now ag acc x"
  note db = sweep_table_db[OF tx, of now ag acc]
  have pol: "decay_policies (snd ?acc) = decay_policies (snd acc)" unfolding db by simp
  have IH: "decay_policies (snd (foldl (sweep_table now ag) ?acc xs)) = decay_policies (snd ?acc)
         \<and> table_rows (snd (foldl (sweep_table now ag) ?acc xs)) t =
             (if t \<in> set xs
              then swept_rows now ag (resolve_policy (snd ?acc) ty ag) t (table_rows (snd ?acc) t)
              else table_rows (snd ?acc) t)"
    using Cons.IH[of ?acc] Cons.prems by simp
  show ?case
  proof (cases "t = x")
    case True
    then have "t \<notin> set xs" using Cons.prems(2) by simp
    moreover have "table_rows (snd ?acc) t
                     = swept_rows now ag (resolve_policy (snd acc) ty ag) t (table_rows (snd acc) t)"
      using True tx assms(3) db table_rows_set_same[OF assms(4)] by simp
    ultimately show ?thesis using IH pol True by simp
  next
    case False
    have "table_rows (snd ?acc) t = table_rows (snd acc) t"
      unfolding db using False by (simp add: table_rows_set_other)
    then show ?thesis using IH pol False resolve_policy_cong[OF pol] by simp
  qed
qed

lemma sweep_result:
  assumes "t \<in> set MEMORY_TABLES" and "TABLE_TO_TYPE t = Some ty"
  shows "table_rows (snd (runDecaySweep d now ag)) t
           = swept_rows now ag (resolve_policy d ty ag) t (table_rows d t)"
proof -
  have d: "distinct MEMORY_TABLES" by (simp add: MEMORY_TABLES_def)
  show ?thesis
    unfolding runDecaySweep_def
    using sweep_fold[OF subset_refl d assms(2,1), of now ag] assms(1) by simp
qed

lemma resolve_policy_sound:
  assumes "resolve_policy d ty ag = Some q"
  shows "q \<in> set (decay_policies d) \<and> memory_type q = ty
         \<and> (policy_agent_id q = None \<or> policy_agent_id q = ag)"
proof -
  let ?own = "filter (\<lambda>p. memory_type p = ty \<and> policy_agent_id p \<noteq> None
                        \<and> policy_agent_id p = ag) (decay_policies d)"
  let ?glob = "filter (\<lambda>p. memory_type p = ty \<and> policy_agent_id p = None) (decay_policies d)"
  have "?own @ ?glob \<noteq> []" using assms unfolding resolve_policy_def by (cases "?own @ ?glob") simp_all
  then obtain x xs where c: "?own @ ?glob = x # xs" by (meson neq_Nil_conv)
  have "x = q" using assms unfolding resolve_policy_def c by simp
  then have "q \<in> set (?own @ ?glob)" using c by (metis list.set_intros(1))
  then have "q \<in> set ?own \<or> q \<in> set ?glob" by simp
  then show ?thesis
  proof
    assume "q \<in> set ?own"
    then show ?thesis by simp
  next
    assume "q \<in> set ?glob"
    then show ?thesis by simp
  qed
qed

lemma resolve_policy_own_first:
  assumes "p \<in> set (decay_policies d)" "memory_type p = ty" "policy_agent_id p = Some a"
  shows "\<exists>q. resolve_policy d ty (Some a) = Some q \<and> policy_agent_id q = Some a"
proof -
  let ?own = "filter (\<lambda>p. memory_type p = ty \<and> policy_agent_id p \<noteq> None
                        \<and> policy_agent_id p = Some a) (decay_policies d)"
  have "p \<in> set ?own" using assms by simp
  then have "?own \<noteq> []" by (metis empty_iff list.set(1))
  then obtain q qs where own: "?own = q # qs" by (meson neq_Nil_conv)
  then have "q \<in> set ?own" by simp
  then have "policy_agent_id q = Some a" by simp
  moreover have "resolve_policy d ty (Some a) = Some q"
    using own by (simp add: resolve_policy_def)
  ultimately show ?thesis by blast
qed

lemma cool_rows_nth:
  "i < length rows \<Longrightarrow>
   cool_rows now ag m ttl t c rows ! i =
     (if stale now ag m ttl c (rows ! i)
      then update_trigger t now ((rows ! i)\<lparr>decay_status := Cooling\<rparr>) else rows ! i)"
  by (simp add: cool_rows_def)

lemma archive_rows_nth:
  "i < length rows \<Longrightarrow>
   archive_rows now ag t u rows ! i =
     (if expired now ag u (rows ! i)
      then update_trigger t now ((rows ! i)\<lparr>decay_status := Archived\<rparr>) else rows ! i)"
  by (simp add: archive_rows_def)

lemma update_trigger_fields [simp]:
  "decay_status (update_trigger t now r) = decay_status r"
  "row_id (update_trigger t now r) = row_id r"
  "agent_id (update_trigger t now r) = agent_id r"
  by (simp_all add: update_trigger_def)

lemma stale_iff:
  "stale now ag m ttl c r \<longleftrightarrow>
     decay_status r = Active \<and> in_scope ag r \<and> access_count r < m
     \<and> ((last_accessed_at r = None \<and> time_column c r < now - ttl * day_ms)
         \<or> (\<exists>t. last_accessed_at r = Some t \<and> t < now - ttl * day_ms))"
  by (auto simp: stale_def split: option.splits)

lemma swept_active_row:
  assumes i: "i < length rows" and act: "decay_status (rows ! i) = Active"
  shows "row_id (archive_rows now ag t u (cool_rows now ag m ttl t c rows) ! i) = row_id (rows ! i)"
    and "\<not> stale now ag m ttl c (rows ! i) \<Longrightarrow>
           archive_rows now ag t u (cool_rows now ag m ttl t c rows) ! i = rows ! i"
    and "stale now ag m ttl c (rows ! i) \<Longrightarrow>
           decay_status (cool_rows now ag m ttl t c rows ! i) = Cooling
           \<and> decay_status (archive_rows now ag t u (cool_rows now ag m ttl t c rows) ! i)
               \<in> {Cooling, Archived}"
proof -
  have len: "i < length (cool_rows now ag m ttl t c rows)" using i by (simp add: cool_rows_def)
  show "row_id (archive_rows now ag t u (cool_rows now ag m ttl t c rows) ! i) = row_id (rows ! i)"
    by (simp add: archive_rows_nth[OF len] cool_rows_nth[OF i])
  show "archive_rows now ag t u (cool_rows now ag m ttl t c rows) ! i = rows ! i"
    if "\<not> stale now ag m ttl c (rows ! i)"
    using that act by (simp add: archive_rows_nth[OF len] cool_rows_nth[OF i] expired_def)
  show "decay_status (cool_rows now ag m ttl t c rows ! i) = Cooling
           \<and> decay_status (archive_rows now ag t u (cool_rows now ag m ttl t c rows) ! i)
               \<in> {Cooling, Archived}"
    if "stale now ag m ttl c (rows ! i)"
    using that by (simp add: archive_rows_nth[OF len] cool_rows_nth[OF i])
qed

text \<open>
  What a sweep does under the policy it resolves. Take a table of the sweep and the
  policy the sweep resolves for its memory type: the row of the sweep's agent when there
  is one (it precedes the global default), else the global default; a sweep without
  agent resolves the global default and covers the rows of every agent. If no policy is
  found, or its \<open>ttl_days\<close> is null, the sweep leaves every row of the table as it is.
  Otherwise, for a row that is active before the sweep: the first UPDATE sets it to
  cooling exactly when the row is in the sweep's scope, \<open>access_count < min_accesses\<close>,
  and either \<open>last_accessed_at\<close> is null and the created (for events: occurred) time is
  before \<open>now - ttl_days\<close>, or \<open>last_accessed_at\<close> is before \<open>now - ttl_days\<close>; the
  row is no longer active after the sweep exactly in that case; and a row with
  \<open>access_count \<ge> min_accesses\<close> is left untouched.
\<close>

lemma sweep_under_resolved_policy:
  assumes tbl: "table \<in> set MEMORY_TABLES"
    and ty: "TABLE_TO_TYPE table = Some memType"
    and ts: "TABLE_TIMESTAMPS table = Some (created, updated)"
    and i: "i < length (table_rows d table)"
    and r: "r = table_rows d table ! i"
    and r': "r' = table_rows (snd (runDecaySweep d now agentId)) table ! i"
  shows "length (table_rows (snd (runDecaySweep d now agentId)) table) = length (table_rows d table)
     \<and> row_id r' = row_id r
     \<and> (\<forall>a p. agentId = Some a \<and> p \<in> set (decay_policies d) \<and> memory_type p = memType
                \<and> policy_agent_id p = Some a
            \<longrightarrow> (\<exists>q. resolve_policy d memType agentId = Some q \<and> policy_agent_id q = Some a))
     \<and> (\<forall>q. resolve_policy d memType agentId = Some q
            \<longrightarrow> q \<in> set (decay_policies d) \<and> memory_type q = memType
                \<and> (policy_agent_id q = None \<or> policy_agent_id q = agentId))
     \<and> (case resolve_policy d memType agentId of
           None \<Rightarrow> r' = r
         | Some p \<Rightarrow>
            (case ttl_days p of
               None \<Rightarrow> r' = r
             | Some ttl \<Rightarrow>
                 decay_status r = Active \<longrightarrow>
                   ((decay_status (cool_rows now agentId (min_accesses p) ttl table created
                                     (table_rows d table) ! i) = Cooling)
                      = (in_scope agentId r \<and> access_count r < min_accesses p
                         \<and> ((last_accessed_at r = None
                               \<and> time_column created r < now - ttl * day_ms)
                             \<or> (\<exists>t. last_accessed_at r = Some t \<and> t < now - ttl * day_ms))))
                   \<and> ((decay_status r' \<noteq> Active)
                      = (in_scope agentId r \<and> access_count r < min_accesses p
                         \<and> ((last_accessed_at r = None
                               \<and> time_column created r < now - ttl * day_ms)
                             \<or> (\<exists>t. last_accessed_at r = Some t \<and> t < now - ttl * day_ms))))
                   \<and> (min_accesses p \<le> access_count r \<longrightarrow> r' = r)))"
proof -
  let ?rows = "table_rows d table"
  note res = sweep_result[OF tbl ty, of d now agentId]
  have len: "length (table_rows (snd (runDecaySweep d now agentId)) table) = length ?rows"
    unfolding res by (simp add: swept_rows_def archive_rows_def cool_rows_def ts split: option.splits)
  have own: "\<forall>a p. agentId = Some a \<and> p \<in> set (decay_policies d) \<and> memory_type p = memType
                \<and> policy_agent_id p = Some a
            \<longrightarrow> (\<exists>q. resolve_policy d memType agentId = Some q \<and> policy_agent_id q = Some a)"
    using resolve_policy_own_first by blast
  have sound: "\<forall>q. resolve_policy d memType agentId = Some q
            \<longrightarrow> q \<in> set (decay_policies d) \<and> memory_type q = memType
                \<and> (policy_agent_id q = None \<or> policy_agent_id q = agentId)"
    using resolve_policy_sound by blast
  have main: "case resolve_policy d memType agentId of
           None \<Rightarrow> r' = r
         | Some p \<Rightarrow>
            (case ttl_days p of
               None \<Rightarrow> r' = r
             | Some ttl \<Rightarrow>
                 decay_status r = Active \<longrightarrow>
                   ((decay_status (cool_rows now agentId (min_accesses p) ttl table created
                                     (table_rows d table) ! i) = Cooling)
                      = (in_scope agentId r \<and> access_count r < min_accesses p
                         \<and> ((last_accessed_at r = None
                               \<and> time_column created r < now - ttl * day_ms)
                             \<or> (\<exists>t. last_accessed_at r = Some t \<and> t < now - ttl * day_ms))))
                   \<and> ((decay_status r' \<noteq> Active)
                      = (in_scope agentId r \<and> access_count r < min_accesses p
                         \<and> ((last_accessed_at r = None
                               \<and> time_column created r < now - ttl * day_ms)
                             \<or> (\<exists>t. last_accessed_at r = Some t \<and> t < now - ttl * day_ms))))
                   \<and> (min_accesses p \<le> access_count r \<longrightarrow> r' = r))"
  proof (cases "resolve_policy d memType agentId")
    case None
    then show ?thesis using r r' res by (simp add: swept_rows_def)
  next
    case (Some p)
    show ?thesis
    proof (cases "ttl_days p")
      case None
      then show ?thesis using Some r r' res by (simp add: swept_rows_def ts)
    next
      case (Some ttl)
      have r'eq: "r' = archive_rows now agentId table updated
                        (cool_rows now agentId (min_accesses p) ttl table created ?rows) ! i"
        using r' res \<open>resolve_policy d memType agentId = Some p\<close> Some
        by (simp add: swept_rows_def ts)
      have body: "((decay_status (cool_rows now agentId (min_accesses p) ttl table created ?rows ! i)
                      = Cooling)
                      = (in_scope agentId r \<and> access_count r < min_accesses p
                         \<and> ((last_accessed_at r = None
                               \<and> time_column created r < now - ttl * day_ms)
                             \<or> (\<exists>t. last_accessed_at r = Some t \<and> t < now - ttl * day_ms))))
                   \<and> ((decay_status r' \<noteq> Active)
                      = (in_scope agentId r \<and> access_count r < min_accesses p
                         \<and> ((last_accessed_at r = None
                               \<and> time_column created r < now - ttl * day_ms)
                             \<or> (\<exists>t. last_accessed_at r = Some t \<and> t < now - ttl * day_ms))))
                   \<and> (min_accesses p \<le> access_count r \<longrightarrow> r' = r)"
        if act: "decay_status r = Active"
      proof (cases "stale now agentId (min_accesses p) ttl created r")
        case True
        have act': "decay_status (?rows ! i) = Active" using act r by simp
        have st: "stale now agentId (min_accesses p) ttl created (?rows ! i)" using True r by simp
        note c = swept_active_row(3)[OF i act' st, of table updated]
        have cond: "in_scope agentId r \<and> access_count r < min_accesses p
                         \<and> ((last_accessed_at r = None
                               \<and> time_column created r < now - ttl * day_ms)
                             \<or> (\<exists>t. last_accessed_at r = Some t \<and> t < now - ttl * day_ms))"
          using True unfolding stale_iff by blast
        have "decay_status r' \<noteq> Active" using c unfolding r'eq by auto
        then show ?thesis using c cond by auto
      next
        case False
        have act': "decay_status (?rows ! i) = Active" using act r by simp
        have st: "\<not> stale now agentId (min_accesses p) ttl created (?rows ! i)"
          using False r by simp
        have same: "r' = r" unfolding r'eq r by (rule swept_active_row(2)[OF i act' st])
        have c1: "cool_rows now agentId (min_accesses p) ttl table created ?rows ! i = r"
          using st r by (simp add: cool_rows_nth[OF i])
        have ncond: "\<not> (in_scope agentId r \<and> access_count r < min_accesses p
                         \<and> ((last_accessed_at r = None
                               \<and> time_column created r < now - ttl * day_ms)
                             \<or> (\<exists>t. last_accessed_at r = Some t \<and> t < now - ttl * day_ms)))"
          using False act unfolding stale_iff by blast
        show ?thesis unfolding c1 same using act ncond by simp
      qed
      then show ?thesis using \<open>resolve_policy d memType agentId = Some p\<close> Some by simp
    qed
  qed
  have id: "row_id r' = row_id r"
  proof (cases "resolve_policy d memType agentId")
    case None
    then show ?thesis using r r' res by (simp add: swept_rows_def)
  next
    case (Some p)
    have l1: "i < length (cool_rows now agentId (min_accesses p) ttl table created ?rows)" for ttl
      using i by (simp add: cool_rows_def)
    show ?thesis
      using Some r r' res
      by (cases "ttl_days p")
         (simp_all add: swept_rows_def ts archive_rows_nth[OF l1] cool_rows_nth[OF i])
  qed
  show ?thesis by (intro conjI len id own sound main)
qed


text \<open>
  C8 at a concrete input. Agent 7 has a policy of its own for facts, with \<open>ttl_days\<close>
  null: under the most specific policy its facts never decay. The global policy for
  facts has 90 days and 3 accesses. A hundred days after fact 1 of agent 7 was created,
  never read since, a sweep scoped to agent 7 resolves the agent's policy and leaves the
  fact active. The sweep without agent, the one the hourly job runs, resolves the global
  policy alone and applies it to the facts of every agent: fact 1 becomes cooling.
\<close>

theorem unscoped_sweep_ignores_agent_policy:
  "resolve_policy decay_db ''fact'' (Some 7)
     = Some \<lparr>policy_agent_id = Some 7, memory_type = ''fact'', ttl_days = None,
             access_boost = True, min_accesses = 0\<rparr>
   \<and> map (\<lambda>r. (row_id r, agent_id r, decay_status r))
        (facts (snd (runDecaySweep decay_db 8640000000 (Some 7))))
       = [(1, 7, Active), (2, 7, Active), (3, 8, Active)]
   \<and> resolve_policy decay_db ''fact'' None
       = Some \<lparr>policy_agent_id = None, memory_type = ''fact'', ttl_days = Some 90,
               access_boost = True, min_accesses = 3\<rparr>
   \<and> map (\<lambda>r. (row_id r, agent_id r, decay_status r))
        (facts (snd (runDecaySweep decay_db 8640000000 None)))
       = [(1, 7, Cooling), (2, 7, Active), (3, 8, Cooling)]
   \<and> transitioned_to_cooling (fst (runDecaySweep decay_db 8640000000 None)) = 2"
  by code_simp

section \<open>Properties of the ingestion\<close>

lemma insert_edge_do_nothing_idem:
  "insert_edge_do_nothing (insert_edge_do_nothing d a st si tt ti rel) a' st si tt ti rel
     = insert_edge_do_nothing d a st si tt ti rel"
  by (simp add: insert_edge_do_nothing_def edge_key_def list_ex_iff)

lemma insert_edge_has:
  "list_ex (\<lambda>x. edge_key x = (st, si, tt, ti, rel))
     (memory_edges (insert_edge_do_nothing d a st si tt ti rel))"
  by (simp add: insert_edge_do_nothing_def edge_key_def list_ex_iff)

lemma insert_edge_mono:
  "set (memory_edges d) \<subseteq> set (memory_edges (insert_edge_do_nothing d a st si tt ti rel))"
  by (auto simp: insert_edge_do_nothing_def)

lemma insert_edge_tables [simp]:
  "table_rows (insert_edge_do_nothing d a st si tt ti rel) t = table_rows d t"
  by (simp add: insert_edge_do_nothing_def table_rows_def)

lemma has_edge_mono:
  "set (memory_edges d) \<subseteq> set (memory_edges d') \<Longrightarrow> has_edge d ty i rel s \<Longrightarrow> has_edge d' ty i rel s"
  by (auto simp: has_edge_def list_ex_iff)

text \<open>What one pass of a loop body of \<open>storeExtractedItems\<close> does to the store.\<close>

lemma store_item_step:
  assumes t: "t \<in> set MEMORY_TABLES"
  shows "\<exists>r. fst (store_item e t ty rel a s txt mk acc) = fst acc @ [row_id r]
           \<and> table_rows (snd (store_item e t ty rel a s txt mk acc)) t = table_rows (snd acc) t @ [r]
           \<and> (\<forall>t'. t' \<noteq> t \<longrightarrow> table_rows (snd (store_item e t ty rel a s txt mk acc)) t'
                                   = table_rows (snd acc) t')
           \<and> set (memory_edges (snd acc)) \<subseteq> set (memory_edges (snd (store_item e t ty rel a s txt mk acc)))
           \<and> has_edge (snd (store_item e t ty rel a s txt mk acc)) ty (row_id r) rel s"
proof -
  let ?emb = "case provider e of None \<Rightarrow> None | Some embed_fn \<Rightarrow> embed_fn txt"
  let ?r = "mk ?emb (next_uuid (snd acc))"
  let ?d1 = "set_table_rows t (table_rows (snd acc) t @ [?r])
               ((snd acc)\<lparr>next_uuid := Suc (next_uuid (snd acc))\<rparr>)"
  have ins: "insert_row t (mk ?emb) (snd acc) = (?r, ?d1)"
    by (simp add: insert_row_def Let_def)
  have st: "store_item e t ty rel a s txt mk acc
              = (fst acc @ [row_id ?r], insert_edge_do_nothing ?d1 a ty (row_id ?r) ''session'' s rel)"
    by (simp add: store_item_def ins)
  have same: "table_rows ?d1 t = table_rows (snd acc) t @ [?r]"
    using t by (auto simp: MEMORY_TABLES_def table_rows_def set_table_rows_def)
  have other: "t' \<noteq> t \<Longrightarrow> table_rows ?d1 t' = table_rows (snd acc) t'" for t'
    by (auto simp: table_rows_def set_table_rows_def)
  have edges: "memory_edges ?d1 = memory_edges (snd acc)"
    by (simp add: set_table_rows_def)
  have mono: "set (memory_edges (snd acc))
                \<subseteq> set (memory_edges (insert_edge_do_nothing ?d1 a ty (row_id ?r) ''session'' s rel))"
    using insert_edge_mono[of ?d1 a ty "row_id ?r" "''session''" s rel] edges by simp
  have has: "has_edge (insert_edge_do_nothing ?d1 a ty (row_id ?r) ''session'' s rel) ty (row_id ?r) rel s"
    unfolding has_edge_def by (rule insert_edge_has)
  show ?thesis
    unfolding st using same other mono has by (intro exI[of _ ?r]) simp
qed

text \<open>A whole loop: the ids pushed are those of the rows appended, each with its edge.\<close>

lemma store_loop:
  assumes t: "t \<in> set MEMORY_TABLES"
    and step: "\<And>acc x. step acc x = store_item e t ty rel a s (txt x) (mk x) acc"
  shows "\<exists>new. table_rows (snd (foldl step acc xs)) t = table_rows (snd acc) t @ new
           \<and> length new = length xs
           \<and> fst (foldl step acc xs) = fst acc @ map row_id new
           \<and> list_all (\<lambda>i. has_edge (snd (foldl step acc xs)) ty i rel s) (map row_id new)
           \<and> (\<forall>t'. t' \<noteq> t \<longrightarrow> table_rows (snd (foldl step acc xs)) t' = table_rows (snd acc) t')
           \<and> set (memory_edges (snd acc)) \<subseteq> set (memory_edges (snd (foldl step acc xs)))"
proof (induction xs arbitrary: acc)
  case Nil
  show ?case by (intro exI[of _ "[]"]) simp
next
  case (Cons x xs)
  let ?acc = "step acc x"
  obtain r where r: "fst ?acc = fst acc @ [row_id r]"
    "table_rows (snd ?acc) t = table_rows (snd acc) t @ [r]"
    "\<forall>t'. t' \<noteq> t \<longrightarrow> table_rows (snd ?acc) t' = table_rows (snd acc) t'"
    "set (memory_edges (snd acc)) \<subseteq> set (memory_edges (snd ?acc))"
    "has_edge (snd ?acc) ty (row_id r) rel s"
    using store_item_step[OF t, of e ty rel a s "txt x" "mk x" acc] unfolding step by blast
  obtain new where n: "table_rows (snd (foldl step ?acc xs)) t = table_rows (snd ?acc) t @ new"
    "length new = length xs"
    "fst (foldl step ?acc xs) = fst ?acc @ map row_id new"
    "list_all (\<lambda>i. has_edge (snd (foldl step ?acc xs)) ty i rel s) (map row_id new)"
    "\<forall>t'. t' \<noteq> t \<longrightarrow> table_rows (snd (foldl step ?acc xs)) t' = table_rows (snd ?acc) t'"
    "set (memory_edges (snd ?acc)) \<subseteq> set (memory_edges (snd (foldl step ?acc xs)))"
    using Cons.IH[of ?acc] by blast
  have h: "has_edge (snd (foldl step ?acc xs)) ty (row_id r) rel s"
    using has_edge_mono[OF n(6) r(5)] .
  show ?case
    apply (intro exI[of _ "r # new"])
    using r n h by auto
qed


lemma table_rows_names [simp]:
  "table_rows d ''facts'' = facts d" "table_rows d ''decisions'' = decisions d"
  "table_rows d ''tasks'' = tasks d" "table_rows d ''events'' = events d"
  "table_rows d ''session_messages'' = session_messages d"
  by (simp_all add: table_rows_def)

lemma storeExtractedItems_links:
  assumes "storeExtractedItems e now a s x d = (stored, d')"
  shows "\<exists>newf newd newt newe.
           facts d' = facts d @ newf \<and> decisions d' = decisions d @ newd
         \<and> tasks d' = tasks d @ newt \<and> events d' = events d @ newe
         \<and> session_messages d' = session_messages d
         \<and> length newf = length (x_facts x) \<and> length newd = length (x_decisions x)
         \<and> length newt = length (x_tasks x) \<and> length newe = length (x_events x)
         \<and> stored = \<lparr>factIds = map row_id newf, decisionIds = map row_id newd,
                      taskIds = map row_id newt, eventIds = map row_id newe\<rparr>
         \<and> list_all (\<lambda>i. has_edge d' ''fact'' i ''derived_from'' s) (map row_id newf)
         \<and> list_all (\<lambda>i. has_edge d' ''decision'' i ''decided_in'' s) (map row_id newd)
         \<and> list_all (\<lambda>i. has_edge d' ''task'' i ''derived_from'' s) (map row_id newt)
         \<and> list_all (\<lambda>i. has_edge d' ''event'' i ''derived_from'' s) (map row_id newe)"
proof -
  let ?a1 = "foldl (store_fact e now a s) ([], d) (x_facts x)"
  let ?a2 = "foldl (store_decision e now a s) ([], snd ?a1) (x_decisions x)"
  let ?a3 = "foldl (store_task e now a s) ([], snd ?a2) (x_tasks x)"
  let ?a4 = "foldl (store_event e now a s) ([], snd ?a3) (x_events x)"
  have st: "stored = \<lparr>factIds = fst ?a1, decisionIds = fst ?a2, taskIds = fst ?a3,
                       eventIds = fst ?a4\<rparr>" and d': "d' = snd ?a4"
    using assms by (auto simp: storeExtractedItems_def Let_def split: prod.splits)
  have tf: "''facts'' \<in> set MEMORY_TABLES" and td: "''decisions'' \<in> set MEMORY_TABLES"
    and tt: "''tasks'' \<in> set MEMORY_TABLES" and te: "''events'' \<in> set MEMORY_TABLES"
    by (simp_all add: MEMORY_TABLES_def)
  obtain newf where f: "table_rows (snd ?a1) ''facts'' = table_rows d ''facts'' @ newf"
    "length newf = length (x_facts x)" "fst ?a1 = map row_id newf"
    "list_all (\<lambda>i. has_edge (snd ?a1) ''fact'' i ''derived_from'' s) (map row_id newf)"
    "\<forall>t'. t' \<noteq> ''facts'' \<longrightarrow> table_rows (snd ?a1) t' = table_rows d t'"
    "set (memory_edges d) \<subseteq> set (memory_edges (snd ?a1))"
    using store_loop[OF tf, where step = "store_fact e now a s" and acc = "([], d)"
        and xs = "x_facts x", OF store_fact_def]
    by auto
  obtain newd where dd: "table_rows (snd ?a2) ''decisions'' = table_rows (snd ?a1) ''decisions'' @ newd"
    "length newd = length (x_decisions x)" "fst ?a2 = map row_id newd"
    "list_all (\<lambda>i. has_edge (snd ?a2) ''decision'' i ''decided_in'' s) (map row_id newd)"
    "\<forall>t'. t' \<noteq> ''decisions'' \<longrightarrow> table_rows (snd ?a2) t' = table_rows (snd ?a1) t'"
    "set (memory_edges (snd ?a1)) \<subseteq> set (memory_edges (snd ?a2))"
    using store_loop[OF td, where step = "store_decision e now a s" and acc = "([], snd ?a1)"
        and xs = "x_decisions x", OF store_decision_def]
    by auto
  obtain newt where t: "table_rows (snd ?a3) ''tasks'' = table_rows (snd ?a2) ''tasks'' @ newt"
    "length newt = length (x_tasks x)" "fst ?a3 = map row_id newt"
    "list_all (\<lambda>i. has_edge (snd ?a3) ''task'' i ''derived_from'' s) (map row_id newt)"
    "\<forall>t'. t' \<noteq> ''tasks'' \<longrightarrow> table_rows (snd ?a3) t' = table_rows (snd ?a2) t'"
    "set (memory_edges (snd ?a2)) \<subseteq> set (memory_edges (snd ?a3))"
    using store_loop[OF tt, where step = "store_task e now a s" and acc = "([], snd ?a2)"
        and xs = "x_tasks x", OF store_task_def]
    by auto
  obtain newe where ev: "table_rows (snd ?a4) ''events'' = table_rows (snd ?a3) ''events'' @ newe"
    "length newe = length (x_events x)" "fst ?a4 = map row_id newe"
    "list_all (\<lambda>i. has_edge (snd ?a4) ''event'' i ''derived_from'' s) (map row_id newe)"
    "\<forall>t'. t' \<noteq> ''events'' \<longrightarrow> table_rows (snd ?a4) t' = table_rows (snd ?a3) t'"
    "set (memory_edges (snd ?a3)) \<subseteq> set (memory_edges (snd ?a4))"
    using store_loop[OF te, where step = "store_event e now a s" and acc = "([], snd ?a3)"
        and xs = "x_events x", OF store_event_def]
    by auto
  have m34: "has_edge (snd ?a3) ty i rel s \<Longrightarrow> has_edge (snd ?a4) ty i rel s" for ty i rel
    using has_edge_mono[OF ev(6)] .
  have m24: "has_edge (snd ?a2) ty i rel s \<Longrightarrow> has_edge (snd ?a4) ty i rel s" for ty i rel
    using has_edge_mono[OF t(6)] m34 by blast
  have m14: "has_edge (snd ?a1) ty i rel s \<Longrightarrow> has_edge (snd ?a4) ty i rel s" for ty i rel
    using has_edge_mono[OF dd(6)] m24 by blast
  have ef: "list_all (\<lambda>i. has_edge (snd ?a4) ''fact'' i ''derived_from'' s) (map row_id newf)"
    using f(4) m14 unfolding list_all_iff by blast
  have ed: "list_all (\<lambda>i. has_edge (snd ?a4) ''decision'' i ''decided_in'' s) (map row_id newd)"
    using dd(4) m24 unfolding list_all_iff by blast
  have et: "list_all (\<lambda>i. has_edge (snd ?a4) ''task'' i ''derived_from'' s) (map row_id newt)"
    using t(4) m34 unfolding list_all_iff by blast
  have facts4: "facts (snd ?a4) = facts d @ newf"
    using f(1) dd(5)[rule_format, of "''facts''"] t(5)[rule_format, of "''facts''"]
      ev(5)[rule_format, of "''facts''"] by simp
  have dec4: "decisions (snd ?a4) = decisions d @ newd"
    using dd(1) f(5)[rule_format, of "''decisions''"] t(5)[rule_format, of "''decisions''"]
      ev(5)[rule_format, of "''decisions''"] by simp
  have tasks4: "tasks (snd ?a4) = tasks d @ newt"
    using t(1) f(5)[rule_format, of "''tasks''"] dd(5)[rule_format, of "''tasks''"]
      ev(5)[rule_format, of "''tasks''"] by simp
  have events4: "events (snd ?a4) = events d @ newe"
    using ev(1) f(5)[rule_format, of "''events''"] dd(5)[rule_format, of "''events''"]
      t(5)[rule_format, of "''events''"] by simp
  have msgs4: "session_messages (snd ?a4) = session_messages d"
    using f(5)[rule_format, of "''session_messages''"] dd(5)[rule_format, of "''session_messages''"]
      t(5)[rule_format, of "''session_messages''"] ev(5)[rule_format, of "''session_messages''"]
    by simp
  have st': "stored = \<lparr>factIds = map row_id newf, decisionIds = map row_id newd,
                      taskIds = map row_id newt, eventIds = map row_id newe\<rparr>"
    unfolding st f(3) dd(3) t(3) ev(3) ..
  show ?thesis
    unfolding d'
    by (intro exI[of _ newf] exI[of _ newd] exI[of _ newt] exI[of _ newe] conjI
        facts4 dec4 tasks4 events4 msgs4 f(2) dd(2) t(2) ev(2) st' ef ed et ev(4))
qed

lemma add_message_created:
  assumes "add_message e d now s msg_role msg_content = (Created rep, d')"
  obtains sess message d1 ctx stored where
    "find (\<lambda>x. s_id x = s) (sessions d) = Some sess"
    "facts d1 = facts d" "decisions d1 = decisions d" "tasks d1 = tasks d"
    "events d1 = events d" "session_messages d1 = session_messages d @ [message]"
    "length ctx \<le> 4"
    "storeExtractedItems e now (s_agent_id sess) s
       (extractFromMessage e (msg_role, msg_content) ctx) d1 = (stored, d')"
    "rep = \<lparr>m_message = message,
            m_extracted = \<lparr>n_facts = length (factIds stored),
                            n_decisions = length (decisionIds stored),
                            n_tasks = length (taskIds stored),
                            n_events = length (eventIds stored)\<rparr>\<rparr>"
proof -
  have ne: "msg_role \<noteq> []" "msg_content \<noteq> []"
    using assms by (auto simp: add_message_def split: if_splits)
  obtain sess where sess: "find (\<lambda>x. s_id x = s) (sessions d) = Some sess"
    using assms ne by (cases "find (\<lambda>x. s_id x = s) (sessions d)") (auto simp: add_message_def)
  let ?a = "s_agent_id sess"
  let ?mk = "\<lambda>i. (new_row i ?a now)\<lparr>session_id := Some s, role := msg_role,
                               content := msg_content, embedding := embedText e msg_content\<rparr>"
  let ?m = "?mk (next_uuid d)"
  let ?d1 = "set_table_rows ''session_messages'' (table_rows d ''session_messages'' @ [?m])
               (d\<lparr>next_uuid := Suc (next_uuid d)\<rparr>)"
  have ins: "insert_row ''session_messages'' ?mk d = (?m, ?d1)"
    by (simp add: insert_row_def Let_def)
  let ?recent = "take 4 (order_by_desc (\<lambda>m. of_int (created_at m))
                      (filter (\<lambda>m. session_id m = Some s \<and> row_id m \<noteq> row_id ?m)
                         (session_messages ?d1)))"
  let ?cx = "rev (map (\<lambda>m. (role m, content m)) ?recent)"
  let ?x = "extractFromMessage e (msg_role, msg_content) ?cx"
  obtain stored d2 where so: "storeExtractedItems e now ?a s ?x ?d1 = (stored, d2)"
    by (cases "storeExtractedItems e now ?a s ?x ?d1")
  have res: "add_message e d now s msg_role msg_content =
           (Created \<lparr>m_message = ?m,
                     m_extracted = \<lparr>n_facts = length (factIds stored),
                                     n_decisions = length (decisionIds stored),
                                     n_tasks = length (taskIds stored),
                                     n_events = length (eventIds stored)\<rparr>\<rparr>, d2)"
    using ne sess ins so by (simp add: add_message_def Let_def)
  have rep: "rep = \<lparr>m_message = ?m,
                     m_extracted = \<lparr>n_facts = length (factIds stored),
                                     n_decisions = length (decisionIds stored),
                                     n_tasks = length (taskIds stored),
                                     n_events = length (eventIds stored)\<rparr>\<rparr>" and d2: "d2 = d'"
    using assms unfolding res by simp_all
  have tabs: "facts ?d1 = facts d" "decisions ?d1 = decisions d" "tasks ?d1 = tasks d"
    "events ?d1 = events d" "session_messages ?d1 = session_messages d @ [?m]"
    by (simp_all add: set_table_rows_def)
  have len: "length ?cx \<le> 4" by simp
  show ?thesis
    using that[of sess ?d1 ?m ?cx stored, OF sess tabs len so[unfolded d2] rep] .
qed

text \<open>
  C5. When \<open>POST /api/v1/sessions/:id/messages\<close> answers 201, the rows it appended to
  facts, decisions, tasks and events are as many as the extractor returned for the message
  (and as the reply counts), and each of them has an edge to the session in the final
  store: \<open>(fact, id) -derived_from-> (session, s)\<close>, \<open>(decision, id) -decided_in->\<close>,
  \<open>(task, id) -derived_from->\<close>, \<open>(event, id) -derived_from->\<close>. The edge insert is
  idempotent: repeating it leaves the store as the first insert left it.
\<close>

theorem ingest_links_extracted_items:
  assumes "add_message e d now s msg_role msg_content = (Created rep, d')"
  shows "(\<exists>ctx newf newd newt newe.
            facts d' = facts d @ newf \<and> decisions d' = decisions d @ newd
          \<and> tasks d' = tasks d @ newt \<and> events d' = events d @ newe
          \<and> length ctx \<le> 4
          \<and> length newf = length (x_facts (extractFromMessage e (msg_role, msg_content) ctx))
          \<and> length newd = length (x_decisions (extractFromMessage e (msg_role, msg_content) ctx))
          \<and> length newt = length (x_tasks (extractFromMessage e (msg_role, msg_content) ctx))
          \<and> length newe = length (x_events (extractFromMessage e (msg_role, msg_content) ctx))
          \<and> m_extracted rep = \<lparr>n_facts = length newf, n_decisions = length newd,
                                 n_tasks = length newt, n_events = length newe\<rparr>
          \<and> list_all (\<lambda>r. has_edge d' ''fact'' (row_id r) ''derived_from'' s) newf
          \<and> list_all (\<lambda>r. has_edge d' ''decision'' (row_id r) ''decided_in'' s) newd
          \<and> list_all (\<lambda>r. has_edge d' ''task'' (row_id r) ''derived_from'' s) newt
          \<and> list_all (\<lambda>r. has_edge d' ''event'' (row_id r) ''derived_from'' s) newe)
       \<and> (\<forall>d0 a a' st si tt ti rel.
             insert_edge_do_nothing (insert_edge_do_nothing d0 a st si tt ti rel) a' st si tt ti rel
               = insert_edge_do_nothing d0 a st si tt ti rel)"
proof -
  obtain sess message d1 ctx stored where
    fs: "find (\<lambda>x. s_id x = s) (sessions d) = Some sess"
    and c: "facts d1 = facts d" "decisions d1 = decisions d" "tasks d1 = tasks d"
      "events d1 = events d"
    and ms: "session_messages d1 = session_messages d @ [message]"
    and cl: "length ctx \<le> 4"
    and so: "storeExtractedItems e now (s_agent_id sess) s
              (extractFromMessage e (msg_role, msg_content) ctx) d1 = (stored, d')"
    and rep: "rep = \<lparr>m_message = message,
                   m_extracted = \<lparr>n_facts = length (factIds stored),
                                   n_decisions = length (decisionIds stored),
                                   n_tasks = length (taskIds stored),
                                   n_events = length (eventIds stored)\<rparr>\<rparr>"
    by (rule add_message_created[OF assms])
  let ?x = "extractFromMessage e (msg_role, msg_content) ctx"
  obtain newf newd newt newe where
    n: "facts d' = facts d1 @ newf" "decisions d' = decisions d1 @ newd"
       "tasks d' = tasks d1 @ newt" "events d' = events d1 @ newe"
       "length newf = length (x_facts ?x)" "length newd = length (x_decisions ?x)"
       "length newt = length (x_tasks ?x)" "length newe = length (x_events ?x)"
    and st: "stored = \<lparr>factIds = map row_id newf, decisionIds = map row_id newd,
                      taskIds = map row_id newt, eventIds = map row_id newe\<rparr>"
    and l: "list_all (\<lambda>i. has_edge d' ''fact'' i ''derived_from'' s) (map row_id newf)"
       "list_all (\<lambda>i. has_edge d' ''decision'' i ''decided_in'' s) (map row_id newd)"
       "list_all (\<lambda>i. has_edge d' ''task'' i ''derived_from'' s) (map row_id newt)"
       "list_all (\<lambda>i. has_edge d' ''event'' i ''derived_from'' s) (map row_id newe)"
    using storeExtractedItems_links[OF so] by (elim exE conjE) (rule that; assumption)
  have l': "list_all (\<lambda>r. has_edge d' ''fact'' (row_id r) ''derived_from'' s) newf"
       "list_all (\<lambda>r. has_edge d' ''decision'' (row_id r) ''decided_in'' s) newd"
       "list_all (\<lambda>r. has_edge d' ''task'' (row_id r) ''derived_from'' s) newt"
       "list_all (\<lambda>r. has_edge d' ''event'' (row_id r) ''derived_from'' s) newe"
    using l by (simp_all add: list_all_iff)
  have cnt: "m_extracted rep = \<lparr>n_facts = length newf, n_decisions = length newd,
                                 n_tasks = length newt, n_events = length newe\<rparr>"
    unfolding rep st by simp
  have tabs: "facts d' = facts d @ newf" "decisions d' = decisions d @ newd"
    "tasks d' = tasks d @ newt" "events d' = events d @ newe"
    using n(1-4) c(1-4) by simp_all
  have idem: "\<forall>d0 a a' st si tt ti rel.
             insert_edge_do_nothing (insert_edge_do_nothing d0 a st si tt ti rel) a' st si tt ti rel
               = insert_edge_do_nothing d0 a st si tt ti rel"
    using insert_edge_do_nothing_idem by blast
  show ?thesis
    by (intro conjI exI[of _ ctx] exI[of _ newf] exI[of _ newd] exI[of _ newt] exI[of _ newe]
        tabs cl n(5-8) cnt l' idem)
qed

theorem ingest_links_extracted_items_witness:
  "\<exists>rep d'. add_message ingest_env ingest_db 5 50 ''user'' ''We decided to use PostgreSQL''
               = (Created rep, d')
     \<and> m_extracted rep = \<lparr>n_facts = 1, n_decisions = 1, n_tasks = 1, n_events = 0\<rparr>
     \<and> map row_id (facts d') = [101] \<and> map row_id (decisions d') = [103]
     \<and> map row_id (tasks d') = [105]
     \<and> list_all (\<lambda>r. has_edge d' ''fact'' (row_id r) ''derived_from'' 50) (facts d')
     \<and> list_all (\<lambda>r. has_edge d' ''decision'' (row_id r) ''decided_in'' 50) (decisions d')
     \<and> list_all (\<lambda>r. has_edge d' ''task'' (row_id r) ''derived_from'' 50) (tasks d')"
proof -
  let ?res = "add_message ingest_env ingest_db 5 50 ''user'' ''We decided to use PostgreSQL''"
  have ev: "(case ?res of (r, d) \<Rightarrow>
               (status_code r, map_option m_extracted (reply_body r), map row_id (facts d),
                map row_id (decisions d), map row_id (tasks d)))
            = (201, Some \<lparr>n_facts = 1, n_decisions = 1, n_tasks = 1, n_events = 0\<rparr>,
               [101], [103], [105])"
    by code_simp
  obtain r0 d' where res0: "?res = (r0, d')" by (cases ?res)
  have code: "status_code r0 = 201"
    and ex: "map_option m_extracted (reply_body r0)
               = Some \<lparr>n_facts = 1, n_decisions = 1, n_tasks = 1, n_events = 0\<rparr>"
    and ids': "map row_id (facts d') = [101]" "map row_id (decisions d') = [103]"
      "map row_id (tasks d') = [105]"
    using ev unfolding res0 by simp_all
  obtain rep where rep: "r0 = Created rep"
    and cnt: "m_extracted rep = \<lparr>n_facts = 1, n_decisions = 1, n_tasks = 1, n_events = 0\<rparr>"
    using ex code by (cases r0) auto
  have res: "?res = (Created rep, d')" using res0 rep by simp
  have empty: "facts ingest_db = []" "decisions ingest_db = []" "tasks ingest_db = []"
    by (simp_all add: ingest_db_def empty_db_def)
  obtain newf newd newt where n: "facts d' = facts ingest_db @ newf"
    "decisions d' = decisions ingest_db @ newd" "tasks d' = tasks ingest_db @ newt"
    and l: "list_all (\<lambda>r. has_edge d' ''fact'' (row_id r) ''derived_from'' 50) newf"
      "list_all (\<lambda>r. has_edge d' ''decision'' (row_id r) ''decided_in'' 50) newd"
      "list_all (\<lambda>r. has_edge d' ''task'' (row_id r) ''derived_from'' 50) newt"
    using conjunct1[OF ingest_links_extracted_items[OF res]]
    by (elim exE conjE) (rule that; assumption)
  have l': "list_all (\<lambda>r. has_edge d' ''fact'' (row_id r) ''derived_from'' 50) (facts d')"
      "list_all (\<lambda>r. has_edge d' ''decision'' (row_id r) ''decided_in'' 50) (decisions d')"
      "list_all (\<lambda>r. has_edge d' ''task'' (row_id r) ''derived_from'' 50) (tasks d')"
    using l n empty by simp_all
  show ?thesis
    by (intro exI[of _ rep] exI[of _ d'] conjI res cnt ids' l')
qed

end
